theory Spec2Isabelle
  imports Complex_Main
begin

section \<open>Event ingestion pipeline of eventProcessor.ts\<close>

text \<open>
  A shallow embedding of the webhook event processor (\<^verbatim>\<open>src/eventProcessor.ts\<close>).
  Asynchronous functions are modelled as sequential state transformers over an
  in-memory image of the Prisma tables they touch; a rejected promise or a thrown
  exception is the \<open>Inl\<close> branch of a sum.
\<close>

subsection \<open>JavaScript strings and truthiness\<close>

text \<open>\<^verbatim>\<open>String.prototype.includes\<close>: the argument occurs as a contiguous run.\<close>

fun startsWith :: "string \<Rightarrow> string \<Rightarrow> bool" where
  "startsWith s [] = True"
| "startsWith [] (c # cs) = False"
| "startsWith (x # xs) (c # cs) = (x = c \<and> startsWith xs cs)"

fun includesStr :: "string \<Rightarrow> string \<Rightarrow> bool" where
  "includesStr [] sub = (sub = [])"
| "includesStr (x # xs) sub = (startsWith (x # xs) sub \<or> includesStr xs sub)"

text \<open>A string value is truthy when it is defined, not null and not empty.\<close>

fun truthyStr :: "string option \<Rightarrow> bool" where
  "truthyStr None = False"
| "truthyStr (Some s) = (s \<noteq> [])"

text \<open>A numeric value is truthy when it is defined and not 0.\<close>

fun truthyNum :: "nat option \<Rightarrow> bool" where
  "truthyNum None = False"
| "truthyNum (Some n) = (n \<noteq> 0)"

text \<open>\<^verbatim>\<open>a || b\<close> on optional strings.\<close>

definition orElse :: "string option \<Rightarrow> string option \<Rightarrow> string option" where
  "orElse a b = (if truthyStr a then a else b)"

text \<open>
  \<^verbatim>\<open>Number.prototype.toString\<close> on the non-negative integers used as ids and stamps.
  \<open>digitChar\<close> is only applied to numbers below 10.
\<close>

definition digitChar :: "nat \<Rightarrow> char" where
  "digitChar d = ''0123456789'' ! d"

function toString :: "nat \<Rightarrow> string" where
  "toString n = (if n < 10 then [digitChar n] else toString (n div 10) @ [digitChar (n mod 10)])"
  by pat_completeness auto
termination
  by (relation "measure id") auto

declare toString.simps [simp del]

subsection \<open>Retry classification\<close>

text \<open>
  The value caught by \<^verbatim>\<open>processEvent\<close> has type \<^verbatim>\<open>any\<close>: its \<^verbatim>\<open>message\<close> property
  may be missing, and then \<^verbatim>\<open>error.message.includes\<close> raises a TypeError.
\<close>

datatype error =
    TypeError
  | RecordNotFound
  | UniqueConstraint
  | ValidationError
  | ForeignKeyViolation
  | PersistenceFailure
  | EncryptionFailure
  | GitHubFailure

record thrownValue =
  message :: "string option"

definition isRetryableError :: "thrownValue \<Rightarrow> error + bool" where
  "isRetryableError e =
     (case message e of
        None \<Rightarrow> Inl TypeError
      | Some m \<Rightarrow>
          Inr (\<not> includesStr m ''not found'' \<and>
               \<not> includesStr m ''invalid signature'' \<and>
               \<not> includesStr m ''already exists''))"

subsection \<open>Pull request state\<close>

datatype prState = OPEN | CLOSED | MERGED

definition mapPRState :: "string \<Rightarrow> bool \<Rightarrow> prState" where
  "mapPRState state merged =
     (if merged then MERGED else if state = ''open'' then OPEN else CLOSED)"


subsection \<open>The persisted tables\<close>

text \<open>
  The rows the modelled functions read or write, with the columns they use.
  \<^verbatim>\<open>createdAt\<close>/\<^verbatim>\<open>updatedAt\<close> stamps and generated row ids play no part in any
  property below and are left out. Tables with a primary key that is only looked up by
  that key are maps; tables that are searched or ordered are lists of rows.
  Scores are floating-point columns; they are modelled as exact rationals, on which
  \<^verbatim>\<open>Math.round\<close> is \<^term>\<open>round\<close> (nearest integer, ties towards \<open>+\<infinity>\<close>).
  A DateTime column holds a time stamp (milliseconds since the epoch) or null.
\<close>

record account =
  acc_name :: string
  acc_type :: string
  acc_installationId :: string

record repository =
  repo_name :: string
  repo_fullName :: string
  repo_accountId :: string

record user =
  u_id :: string
  u_login :: string
  u_email :: "string option"
  u_name :: "string option"
  u_accountId :: string
  u_points :: int
  u_level :: int

record pullRequest =
  pr_number :: int
  pr_title :: string
  pr_description :: "string option"
  pr_repositoryId :: string
  pr_authorId :: string
  pr_state :: prState
  pr_additions :: int
  pr_deletions :: int
  pr_changedFiles :: int
  pr_reviewerIds :: "string list"
  pr_firstCommitAt :: "int option"
  pr_mergedAt :: "int option"
  pr_closedAt :: "int option"
  pr_overallScore :: "rat option"
  pr_pointsAwarded :: "int option"

record commit =
  c_id :: string
  c_sha :: string
  c_message :: string
  c_authorId :: string
  c_repositoryId :: string
  c_committedAt :: int
  c_pullRequests :: "string list"

record pullRequestFile =
  f_pullRequestId :: string
  f_filename :: string
  f_status :: string
  f_additions :: int
  f_deletions :: int
  f_changes :: int
  f_patch :: "string option"

record pointTransaction =
  pt_userId :: string
  pt_accountId :: string
  pt_amount :: int
  pt_reason :: string
  pt_referenceId :: string
  pt_referenceType :: string

text \<open>
  \<open>memberships\<close> is the UserOrganization table: one row per (userId, accountId),
  the role being the constant \<^verbatim>\<open>'member'\<close>.
\<close>

record store =
  accounts :: "string \<rightharpoonup> account"
  repositories :: "string \<rightharpoonup> repository"
  users :: "user list"
  memberships :: "(string \<times> string) list"
  pullRequests :: "string \<rightharpoonup> pullRequest"
  commits :: "commit list"
  pullRequestFiles :: "pullRequestFile list"
  pointTransactions :: "pointTransaction list"

text \<open>\<^verbatim>\<open>prisma.user.findUnique({ where: { id } })\<close>\<close>

definition findUser :: "store \<Rightarrow> string \<Rightarrow> user option" where
  "findUser s userId = find (\<lambda>u. u_id u = userId) (users s)"

text \<open>
  \<^verbatim>\<open>prisma.user.update\<close>: the rows selected by the \<^verbatim>\<open>where\<close> filter are rewritten;
  Prisma rejects with ``record to update not found'' when no row is selected.
\<close>

definition updateUsers :: "(user \<Rightarrow> bool) \<Rightarrow> (user \<Rightarrow> user) \<Rightarrow> store \<Rightarrow> error + store" where
  "updateUsers sel f s =
     (if list_ex sel (users s)
      then Inr (s\<lparr>users := map (\<lambda>u. if sel u then f u else u) (users s)\<rparr>)
      else Inl RecordNotFound)"

subsection \<open>Registrar\<close>

definition ensureUserExists ::
  "string \<Rightarrow> string \<Rightarrow> string \<Rightarrow> store \<Rightarrow> (error + unit) \<times> store" where
  "ensureUserExists userId login accountId s =
     (let s1 = (case accounts s accountId of
                  Some existingAccount \<Rightarrow> s
                | None \<Rightarrow>
                    s\<lparr>accounts := (accounts s)(accountId \<mapsto>
                         \<lparr>acc_name = login, acc_type = ''ORGANIZATION'',
                          acc_installationId = ''unknown''\<rparr>)\<rparr>)
      in case findUser s1 userId of
           None \<Rightarrow>
             (let s2 = s1\<lparr>users := users s1 @
                          [\<lparr>u_id = userId, u_login = login, u_email = None, u_name = None,
                            u_accountId = accountId, u_points = 0, u_level = 1\<rparr>]\<rparr>
              in if (userId, accountId) \<in> set (memberships s2)
                 then (Inl UniqueConstraint, s2)
                 else (Inr (), s2\<lparr>memberships := memberships s2 @ [(userId, accountId)]\<rparr>))
         | Some user \<Rightarrow>
             (if (userId, accountId) \<in> set (memberships s1)
              then (Inr (), s1)
              else (Inr (), s1\<lparr>memberships := memberships s1 @ [(userId, accountId)]\<rparr>)))"

subsection \<open>Points and levels\<close>

definition checkAndUpdateUserLevel :: "string \<Rightarrow> string \<Rightarrow> store \<Rightarrow> (error + unit) \<times> store" where
  "checkAndUpdateUserLevel userId accountId s =
     (case findUser s userId of
        None \<Rightarrow> (Inr (), s)
      | Some user \<Rightarrow>
          (let newLevel = u_points user div 100 + 1
           in if newLevel > u_level user
              then (case updateUsers (\<lambda>u. u_id u = userId) (\<lambda>u. u\<lparr>u_level := newLevel\<rparr>) s of
                      Inl e \<Rightarrow> (Inl e, s)
                    | Inr s' \<Rightarrow> (Inr (), s'))
              else (Inr (), s)))"

text \<open>
  \<^verbatim>\<open>!pr.overallScore\<close> holds for a missing score and for the score 0 alike.
  \<^verbatim>\<open>pr.repository\<close> is the included relation: reading \<^verbatim>\<open>accountId\<close> of a
  missing repository row is a TypeError. The transaction is created with
  \<^verbatim>\<open>account: { connect: { id } }\<close>, which Prisma rejects when the account row is missing.
\<close>

definition calculateAndAwardPoints :: "string \<Rightarrow> store \<Rightarrow> (error + unit) \<times> store" where
  "calculateAndAwardPoints prId s =
     (case pullRequests s prId of
        None \<Rightarrow> (Inr (), s)
      | Some pr \<Rightarrow>
          (case pr_overallScore pr of
             None \<Rightarrow> (Inr (), s)
           | Some overallScore \<Rightarrow>
               if overallScore = 0 then (Inr (), s)
               else
                 (case repositories s (pr_repositoryId pr) of
                    None \<Rightarrow> (Inl TypeError, s)
                  | Some repo \<Rightarrow>
                      if (pr_authorId pr, repo_accountId repo) \<notin> set (memberships s)
                      then (Inr (), s)
                      else
                        (let points = round overallScore
                         in case updateUsers
                                   (\<lambda>u. u_id u = pr_authorId pr \<and> u_accountId u = repo_accountId repo)
                                   (\<lambda>u. u\<lparr>u_points := u_points u + points\<rparr>) s of
                              Inl e \<Rightarrow> (Inl e, s)
                            | Inr s1 \<Rightarrow>
                                (case accounts s1 (repo_accountId repo) of
                                   None \<Rightarrow> (Inl RecordNotFound, s1)
                                 | Some acc \<Rightarrow>
                                     (let s2 = s1\<lparr>pointTransactions := pointTransactions s1 @
                                                 [\<lparr>pt_userId = pr_authorId pr,
                                                   pt_accountId = repo_accountId repo,
                                                   pt_amount = points,
                                                   pt_reason = ''pr_merged'',
                                                   pt_referenceId = prId,
                                                   pt_referenceType = ''pullrequest''\<rparr>]\<rparr>;
                                          s3 = s2\<lparr>pullRequests := (pullRequests s2)(prId \<mapsto>
                                                 pr\<lparr>pr_pointsAwarded := Some points\<rparr>)\<rparr>
                                      in checkAndUpdateUserLevel (pr_authorId pr)
                                           (repo_accountId repo) s3))))))"

definition reviewPoints :: "string \<Rightarrow> int" where
  "reviewPoints reviewState =
     (if reviewState = ''APPROVED'' then 10
      else if reviewState = ''CHANGES_REQUESTED'' then 15
      else if reviewState = ''COMMENTED'' then 5
      else 0)"

definition awardPointsForReview ::
  "string \<Rightarrow> string \<Rightarrow> string \<Rightarrow> store \<Rightarrow> (error + unit) \<times> store" where
  "awardPointsForReview userId prId reviewState s =
     (let points = reviewPoints reviewState
      in if points > 0
         then
           (case pullRequests s prId of
              None \<Rightarrow> (Inr (), s)
            | Some pr \<Rightarrow>
                (case updateUsers (\<lambda>u. u_id u = userId)
                        (\<lambda>u. u\<lparr>u_points := u_points u + points\<rparr>) s of
                   Inl e \<Rightarrow> (Inl e, s)
                 | Inr s1 \<Rightarrow>
                     (case repositories s1 (pr_repositoryId pr) of
                        None \<Rightarrow> (Inl TypeError, s1)
                      | Some repo \<Rightarrow>
                          (case accounts s1 (repo_accountId repo) of
                             None \<Rightarrow> (Inl RecordNotFound, s1)
                           | Some acc \<Rightarrow>
                               (let s2 = s1\<lparr>pointTransactions := pointTransactions s1 @
                                           [\<lparr>pt_userId = userId,
                                             pt_accountId = repo_accountId repo,
                                             pt_amount = points,
                                             pt_reason = ''review_submitted'',
                                             pt_referenceId = prId,
                                             pt_referenceType = ''pullrequest''\<rparr>]\<rparr>
                                in checkAndUpdateUserLevel userId (repo_accountId repo) s2)))))
         else (Inr (), s))"


subsection \<open>Pull request upsert\<close>

text \<open>
  The fields of the GitHub pull request object that \<^verbatim>\<open>storePullRequest\<close> reads; the
  ISO stamps \<^verbatim>\<open>merged_at\<close> and \<^verbatim>\<open>closed_at\<close> of the GitHub API are taken as parsed.
  \<^verbatim>\<open>encryptContent\<close> and \<^verbatim>\<open>isEncrypted\<close> come from \<^verbatim>\<open>@/utils/encryption\<close>, which is
  not among the sources: they are parameters, and \<^verbatim>\<open>encryptContent\<close> may throw.
\<close>

record prData =
  pd_id :: nat
  pd_number :: int
  pd_title :: string
  pd_body :: "string option"
  pd_state :: string
  pd_merged :: bool
  pd_additions :: int
  pd_deletions :: int
  pd_changed_files :: int
  pd_merged_at :: "int option"
  pd_closed_at :: "int option"
  pd_user :: "nat option"

text \<open>
  \<^verbatim>\<open>encryptContent\<close> is called before the \<^verbatim>\<open>try\<close> block, so what it throws leaves
  the function. Both the \<^verbatim>\<open>update\<close> and the \<^verbatim>\<open>create\<close> argument of the upsert are
  evaluated before the call, so a missing \<^verbatim>\<open>prData.user\<close> is a TypeError even when the
  row exists. The score and points columns are not written by either branch.
\<close>

definition storePullRequest ::
  "(string \<Rightarrow> error + string) \<Rightarrow> (string \<Rightarrow> bool) \<Rightarrow>
   prData \<Rightarrow> string \<Rightarrow> string \<Rightarrow> store \<Rightarrow> (error + pullRequest) \<times> store" where
  "storePullRequest encryptContent isEncrypted prData accountId repoId s =
     (let description = (if truthyStr (pd_body prData) then pd_body prData else None);
          state = mapPRState (pd_state prData) (pd_merged prData);
          shouldEncrypt = (state = CLOSED \<or> state = MERGED);
          processed =
            (case description of
               None \<Rightarrow> Inr None
             | Some d \<Rightarrow>
                 if shouldEncrypt \<and> \<not> isEncrypted d
                 then (case encryptContent d of Inl e \<Rightarrow> Inl e | Inr c \<Rightarrow> Inr (Some c))
                 else Inr (Some d))
      in case processed of
           Inl e \<Rightarrow> (Inl e, s)
         | Inr processedDescription \<Rightarrow>
             (case pd_user prData of
                None \<Rightarrow> (Inl TypeError, s)
              | Some authorId \<Rightarrow>
                  (let row =
                     (case pullRequests s (toString (pd_id prData)) of
                        Some old \<Rightarrow>
                          old\<lparr>pr_title := pd_title prData,
                              pr_description := processedDescription,
                              pr_state := state,
                              pr_additions := pd_additions prData,
                              pr_deletions := pd_deletions prData,
                              pr_changedFiles := pd_changed_files prData,
                              pr_mergedAt := pd_merged_at prData,
                              pr_closedAt := pd_closed_at prData\<rparr>
                      | None \<Rightarrow>
                          \<lparr>pr_number = pd_number prData,
                           pr_title = pd_title prData,
                           pr_description = processedDescription,
                           pr_repositoryId = repoId,
                           pr_authorId = toString authorId,
                           pr_state = state,
                           pr_additions = pd_additions prData,
                           pr_deletions = pd_deletions prData,
                           pr_changedFiles = pd_changed_files prData,
                           pr_reviewerIds = [],
                           pr_firstCommitAt = None,
                           pr_mergedAt = pd_merged_at prData,
                           pr_closedAt = pd_closed_at prData,
                           pr_overallScore = None,
                           pr_pointsAwarded = None\<rparr>)
                   in (Inr row,
                       s\<lparr>pullRequests := (pullRequests s)(toString (pd_id prData) \<mapsto> row)\<rparr>))))"

text \<open>
  The value of \<^verbatim>\<open>new Date(x)\<close>: a time stamp, or the Invalid Date that JavaScript
  yields for an unparsable or undefined argument.
\<close>

datatype jsDate = ValidDate int | InvalidDate

text \<open>
  Here the call of \<^verbatim>\<open>encryptContent\<close> has a \<^verbatim>\<open>try\<close>/\<^verbatim>\<open>catch\<close> of its own, which keeps
  the stored description. \<open>closedAt\<close> is the value of \<^verbatim>\<open>new Date(closedAt)\<close>: Prisma
  rejects the update for an Invalid Date, and the outer \<^verbatim>\<open>catch\<close> rethrows.
  \<open>mergedAt\<close> is GitHub's \<^verbatim>\<open>merged_at\<close> stamp, taken as parsed, or null.
\<close>

definition updatePullRequestStatus ::
  "(string \<Rightarrow> error + string) \<Rightarrow> (string \<Rightarrow> bool) \<Rightarrow>
   string \<Rightarrow> prState \<Rightarrow> int option \<Rightarrow> jsDate \<Rightarrow> store \<Rightarrow> (error + unit) \<times> store" where
  "updatePullRequestStatus encryptContent isEncrypted prId state mergedAt closedAt s =
     (case pullRequests s prId of
        None \<Rightarrow> (Inr (), s)
      | Some pr \<Rightarrow>
          (let description =
                 (case pr_description pr of
                    None \<Rightarrow> None
                  | Some d \<Rightarrow>
                      if d \<noteq> [] \<and> \<not> isEncrypted d
                      then (case encryptContent d of
                              Inl e \<Rightarrow> pr_description pr
                            | Inr c \<Rightarrow> Some c)
                      else Some d)
           in case closedAt of
                InvalidDate \<Rightarrow> (Inl ValidationError, s)
              | ValidDate stamp \<Rightarrow>
                  (Inr (),
                   s\<lparr>pullRequests := (pullRequests s)(prId \<mapsto>
                        pr\<lparr>pr_state := state, pr_description := description,
                           pr_mergedAt := mergedAt, pr_closedAt := Some stamp\<rparr>)\<rparr>)))"

subsection \<open>Pull request files\<close>

record fileData =
  fd_filename :: string
  fd_status :: string
  fd_additions :: int
  fd_deletions :: int
  fd_changes :: int
  fd_patch :: "string option"

definition fileRow :: "string \<Rightarrow> fileData \<Rightarrow> pullRequestFile" where
  "fileRow prId file =
     \<lparr>f_pullRequestId = prId, f_filename = fd_filename file, f_status = fd_status file,
      f_additions = fd_additions file, f_deletions = fd_deletions file,
      f_changes = fd_changes file, f_patch = fd_patch file\<rparr>"

text \<open>
  The database may reject a statement (connection loss, constraint violation, ...);
  \<open>persistence\<close> says which statements of one call it accepts. Besides, a file row
  refers to its pull request (the relation \<^verbatim>\<open>pr.files\<close>), so an insert for a pull
  request that is not stored violates the foreign key.
\<close>

record persistence =
  deleteAccepted :: bool
  createAccepted :: "fileData \<Rightarrow> bool"

datatype filesOutcome = NoFiles | FilesStored | FilesSwallowed error

text \<open>
  \<^verbatim>\<open>files\<close> may be null. Every exception is caught and logged, so the function always
  returns normally. The rows are created concurrently (\<^verbatim>\<open>Promise.all\<close>): a rejected
  insert does not stop the others, and the model inserts the accepted rows in the order
  of the list.
\<close>

definition storePullRequestFiles ::
  "persistence \<Rightarrow> string \<Rightarrow> fileData list option \<Rightarrow> store \<Rightarrow> filesOutcome \<times> store" where
  "storePullRequestFiles db prId files s =
     (case files of
        None \<Rightarrow> (NoFiles, s)
      | Some fs \<Rightarrow>
          if fs = [] then (NoFiles, s)
          else if \<not> deleteAccepted db then (FilesSwallowed PersistenceFailure, s)
          else
            (let kept = filter (\<lambda>f. f_pullRequestId f \<noteq> prId) (pullRequestFiles s)
             in case pullRequests s prId of
                  None \<Rightarrow> (FilesSwallowed ForeignKeyViolation, s\<lparr>pullRequestFiles := kept\<rparr>)
                | Some pr \<Rightarrow>
                    (if list_all (createAccepted db) fs then FilesStored
                     else FilesSwallowed PersistenceFailure,
                     s\<lparr>pullRequestFiles :=
                          kept @ map (fileRow prId) (filter (createAccepted db) fs)\<rparr>)))"

subsection \<open>Account id resolution in the handlers\<close>

text \<open>
  The parts of a webhook payload the handlers inspect before any processing. Each
  function below is the opening of the handler of the same name, up to the point where
  \<^verbatim>\<open>accountId\<close> is assigned: \<open>Inr None\<close> is an early \<^verbatim>\<open>return\<close>, \<open>Inr (Some a)\<close> the
  resolved account id, \<open>Inl\<close> an exception.
\<close>

record idObject =
  o_id :: "nat option"

record installationObject =
  i_id :: "nat option"
  i_account :: "idObject option"

record repositoryObject =
  r_id :: nat
  r_full_name :: string
  r_owner :: "idObject option"

record issueObject =
  is_pull_request :: bool

record payload =
  p_action :: string
  p_installation :: "installationObject option"
  p_organization :: "idObject option"
  p_repository :: "repositoryObject option"
  p_sender :: "idObject option"
  p_pull_request :: bool
  p_review :: bool
  p_issue :: "issueObject option"

text \<open>\<^verbatim>\<open>x && x.id\<close> for an optional object \<open>x\<close>: the id when both are truthy.\<close>

fun truthyIdOf :: "idObject option \<Rightarrow> nat option" where
  "truthyIdOf None = None"
| "truthyIdOf (Some obj) = (if truthyNum (o_id obj) then o_id obj else None)"

definition installationAccountId :: "payload \<Rightarrow> nat option" where
  "installationAccountId pl =
     (case p_installation pl of
        None \<Rightarrow> None
      | Some inst \<Rightarrow> truthyIdOf (i_account inst))"

definition handlePullRequestEvent_accountId :: "payload option \<Rightarrow> error + string option" where
  "handlePullRequestEvent_accountId payload =
     (case payload of
        None \<Rightarrow> Inr None
      | Some pl \<Rightarrow>
          (case p_repository pl of
             None \<Rightarrow> Inr None
           | Some repository \<Rightarrow>
               if \<not> p_pull_request pl then Inr None
               else
                 (case installationAccountId pl of
                    Some a \<Rightarrow> Inr (Some (toString a))
                  | None \<Rightarrow>
                 (case truthyIdOf (p_organization pl) of
                    Some a \<Rightarrow> Inr (Some (toString a))
                  | None \<Rightarrow>
                 (case truthyIdOf (r_owner repository) of
                    Some a \<Rightarrow> Inr (Some (toString a))
                  | None \<Rightarrow>
                 (case truthyIdOf (p_sender pl) of
                    Some a \<Rightarrow> Inr (Some (toString a))
                  | None \<Rightarrow> Inr None))))))"

definition handleReviewEvent_accountId :: "payload option \<Rightarrow> error + string option" where
  "handleReviewEvent_accountId payload =
     (case payload of
        None \<Rightarrow> Inr None
      | Some pl \<Rightarrow>
          (case p_repository pl of
             None \<Rightarrow> Inr None
           | Some repository \<Rightarrow>
               if \<not> p_review pl then Inr None
               else if \<not> p_pull_request pl then Inr None
               else
                 (case installationAccountId pl of
                    Some a \<Rightarrow> Inr (Some (toString a))
                  | None \<Rightarrow>
                 (case truthyIdOf (p_organization pl) of
                    Some a \<Rightarrow> Inr (Some (toString a))
                  | None \<Rightarrow>
                 (case truthyIdOf (r_owner repository) of
                    Some a \<Rightarrow> Inr (Some (toString a))
                  | None \<Rightarrow>
                 (case truthyIdOf (p_sender pl) of
                    Some a \<Rightarrow> Inr (Some (toString a))
                  | None \<Rightarrow> Inr None))))))"

text \<open>The push handler has no branch for \<^verbatim>\<open>installation.account.id\<close>.\<close>

definition handlePushEvent_accountId :: "payload option \<Rightarrow> error + string option" where
  "handlePushEvent_accountId payload =
     (case payload of
        None \<Rightarrow> Inr None
      | Some pl \<Rightarrow>
          (case p_repository pl of
             None \<Rightarrow> Inr None
           | Some repository \<Rightarrow>
                 (case truthyIdOf (p_organization pl) of
                    Some a \<Rightarrow> Inr (Some (toString a))
                  | None \<Rightarrow>
                 (case truthyIdOf (r_owner repository) of
                    Some a \<Rightarrow> Inr (Some (toString a))
                  | None \<Rightarrow>
                 (case truthyIdOf (p_sender pl) of
                    Some a \<Rightarrow> Inr (Some (toString a))
                  | None \<Rightarrow> Inr None)))))"

text \<open>
  The comment handler reads \<^verbatim>\<open>payload.issue.pull_request\<close> and \<^verbatim>\<open>repository.owner\<close>
  without checking \<^verbatim>\<open>payload\<close>, \<^verbatim>\<open>issue\<close> or \<^verbatim>\<open>repository\<close> first.
\<close>

definition handleIssueCommentEvent_accountId :: "payload option \<Rightarrow> error + string option" where
  "handleIssueCommentEvent_accountId payload =
     (case payload of
        None \<Rightarrow> Inl TypeError
      | Some pl \<Rightarrow>
          (case p_issue pl of
             None \<Rightarrow> Inl TypeError
           | Some issue \<Rightarrow>
               if \<not> is_pull_request issue then Inr None
               else if p_action pl \<noteq> ''created'' \<and> p_action pl \<noteq> ''edited'' then Inr None
               else
                 (case installationAccountId pl of
                    Some a \<Rightarrow> Inr (Some (toString a))
                  | None \<Rightarrow>
                 (case truthyIdOf (p_organization pl) of
                    Some a \<Rightarrow> Inr (Some (toString a))
                  | None \<Rightarrow>
                 (case p_repository pl of
                    None \<Rightarrow> Inl TypeError
                  | Some repository \<Rightarrow>
                 (case truthyIdOf (r_owner repository) of
                    Some a \<Rightarrow> Inr (Some (toString a))
                  | None \<Rightarrow>
                 (case truthyIdOf (p_sender pl) of
                    Some a \<Rightarrow> Inr (Some (toString a))
                  | None \<Rightarrow> Inr None)))))))"


subsection \<open>Commit linker\<close>

text \<open>
  A commit object as returned by \<^verbatim>\<open>github.getPullRequestCommits\<close>. The top-level
  \<^verbatim>\<open>author\<close> (a GitHub user) and \<^verbatim>\<open>commit.author\<close> (the git author) are both
  optional objects, read through the same untyped variable \<^verbatim>\<open>authorData\<close>.
  \<^verbatim>\<open>new Date(...)\<close> of the author date is taken as already parsed to a time stamp.
\<close>

record authorData =
  ad_id :: "nat option"
  ad_login :: "string option"
  ad_name :: "string option"
  ad_email :: "string option"
  ad_date :: "int option"

record commitDetail =
  cd_message :: string
  cd_author :: "authorData option"

record commitData =
  cm_sha :: string
  cm_author :: "authorData option"
  cm_commit :: "commitDetail option"

text \<open>
  Modelled from the spec: the column defaults of a new User row (points 0, level 1),
  declared in the Prisma schema, which is not among the sources.
\<close>

definition defaultPoints :: int where
  "defaultPoints = 0"

definition defaultLevel :: int where
  "defaultLevel = 1"

text \<open>
  \<^verbatim>\<open>prisma.user.findFirst({ where: { OR: [...] } })\<close>: a filter whose value is
  \<^verbatim>\<open>undefined\<close> is dropped from the disjunction.
\<close>

definition matchesAuthor :: "authorData \<Rightarrow> user \<Rightarrow> bool" where
  "matchesAuthor a u \<longleftrightarrow>
     (case ad_id a of None \<Rightarrow> False | Some n \<Rightarrow> u_id u = toString n) \<or>
     (case orElse (ad_login a) (ad_name a) of None \<Rightarrow> False | Some l \<Rightarrow> u_login u = l) \<or>
     (truthyStr (ad_email a) \<and> u_email u = ad_email a)"

text \<open>
  \<^verbatim>\<open>prisma.user.create\<close>: the id is the primary key and the email is a unique
  column (it is the \<^verbatim>\<open>where\<close> key of the upsert in \<^verbatim>\<open>processCommit\<close>).
\<close>

definition createUser :: "user \<Rightarrow> store \<Rightarrow> error + store" where
  "createUser u s =
     (if list_ex (\<lambda>v. u_id v = u_id u) (users s) then Inl UniqueConstraint
      else if u_email u \<noteq> None \<and> list_ex (\<lambda>v. u_email v = u_email u) (users s)
      then Inl UniqueConstraint
      else Inr (s\<lparr>users := users s @ [u]\<rparr>))"

text \<open>Resolve the author of a commit that is not stored yet; \<open>now\<close> is \<^verbatim>\<open>Date.now()\<close>.\<close>

definition resolveAuthor ::
  "nat \<Rightarrow> pullRequest \<Rightarrow> authorData \<Rightarrow> store \<Rightarrow> (error + string) \<times> store" where
  "resolveAuthor now pr a s =
     (case find (matchesAuthor a) (users s) of
        Some user \<Rightarrow> (Inr (u_id user), s)
      | None \<Rightarrow>
          (case repositories s (pr_repositoryId pr) of
             None \<Rightarrow> (Inl TypeError, s)
           | Some repo \<Rightarrow>
               (let newUser =
                      \<lparr>u_id = (case ad_id a of
                                 Some n \<Rightarrow> toString n
                               | None \<Rightarrow> ''commit-author-'' @ toString now),
                       u_login = (case orElse (orElse (ad_login a) (ad_name a))
                                         (Some (''unknown-'' @ toString now)) of
                                    Some l \<Rightarrow> l
                                  | None \<Rightarrow> ''unknown-'' @ toString now),
                       u_email = ad_email a,
                       u_name = ad_name a,
                       u_accountId = repo_accountId repo,
                       u_points = defaultPoints,
                       u_level = defaultLevel\<rparr>
                in case createUser newUser s of
                     Inl e \<Rightarrow> (Inl e, s)
                   | Inr s' \<Rightarrow> (Inr (u_id newUser), s'))))"

text \<open>
  One iteration of the loop over the fetched commits. The result carries the store as
  it is when the iteration ends or throws. \<^verbatim>\<open>linkedCount\<close> is only logged.
\<close>

definition linkCommit :: "nat \<Rightarrow> string \<Rightarrow> commitData \<Rightarrow> store \<Rightarrow> error option \<times> store" where
  "linkCommit now prId commitData s =
     (case find (\<lambda>c. c_sha c = cm_sha commitData \<or> c_id c = cm_sha commitData) (commits s) of
        Some commit \<Rightarrow>
          (if pullRequests s prId \<noteq> None \<and>
              list_ex (\<lambda>c. c_id c = c_id commit \<and> prId \<in> set (c_pullRequests c)) (commits s)
           then (None, s)
           else
             (case pullRequests s prId of
                None \<Rightarrow> (Some RecordNotFound, s)
              | Some pr \<Rightarrow>
                  (None,
                   s\<lparr>commits :=
                        map (\<lambda>c. if c_id c = c_id commit \<and> prId \<notin> set (c_pullRequests c)
                                  then c\<lparr>c_pullRequests := c_pullRequests c @ [prId]\<rparr> else c)
                          (commits s)\<rparr>)))
      | None \<Rightarrow>
          (case pullRequests s prId of
             None \<Rightarrow> (None, s)
           | Some pr \<Rightarrow>
               (case (case cm_author commitData of
                        Some a \<Rightarrow> Some a
                      | None \<Rightarrow> (case cm_commit commitData of
                                    None \<Rightarrow> None
                                  | Some d \<Rightarrow> cd_author d)) of
                  None \<Rightarrow> (None, s)
                | Some authorData \<Rightarrow>
                    (case resolveAuthor now pr authorData s of
                       (Inl e, s1) \<Rightarrow> (Some e, s1)
                     | (Inr authorId, s1) \<Rightarrow>
                         (case cm_commit commitData of
                            None \<Rightarrow> (Some TypeError, s1)
                          | Some d \<Rightarrow>
                              (case cd_author d of
                                 None \<Rightarrow> (Some TypeError, s1)
                               | Some gitAuthor \<Rightarrow>
                                   (case ad_date gitAuthor of
                                      None \<Rightarrow> (Some ValidationError, s1)
                                    | Some date \<Rightarrow>
                                        (None,
                                         s1\<lparr>commits := commits s1 @
                                              [\<lparr>c_id = cm_sha commitData,
                                                c_sha = cm_sha commitData,
                                                c_message = cd_message d,
                                                c_authorId = authorId,
                                                c_repositoryId = pr_repositoryId pr,
                                                c_committedAt = date,
                                                c_pullRequests = [prId]\<rparr>]\<rparr>))))))))"

text \<open>The \<^verbatim>\<open>for\<close> loop: it stops at the first exception. \<open>clock i\<close> is \<^verbatim>\<open>Date.now()\<close>
  during iteration \<open>i\<close>.\<close>

fun linkLoop ::
  "(nat \<Rightarrow> nat) \<Rightarrow> nat \<Rightarrow> string \<Rightarrow> commitData list \<Rightarrow> store \<Rightarrow> error option \<times> store" where
  "linkLoop clock i prId [] s = (None, s)"
| "linkLoop clock i prId (commitData # rest) s =
     (case linkCommit (clock i) prId commitData s of
        (Some e, s1) \<Rightarrow> (Some e, s1)
      | (None, s1) \<Rightarrow> linkLoop clock (Suc i) prId rest s1)"

text \<open>
  \<^verbatim>\<open>prisma.commit.findFirst\<close> over the commits linked to the pull request, ordered
  by \<^verbatim>\<open>committedAt\<close> ascending.
\<close>

definition linkedCommits :: "store \<Rightarrow> string \<Rightarrow> commit list" where
  "linkedCommits s prId = filter (\<lambda>c. prId \<in> set (c_pullRequests c)) (commits s)"

fun earliest :: "commit list \<Rightarrow> commit option" where
  "earliest [] = None"
| "earliest (c # cs) =
     (case earliest cs of
        None \<Rightarrow> Some c
      | Some d \<Rightarrow> if c_committedAt c \<le> c_committedAt d then Some c else Some d)"

datatype linkOutcome = NoCommits | Completed | Swallowed error

text \<open>
  \<open>fetched\<close> is what \<^verbatim>\<open>github.getPullRequestCommits\<close> yields: an exception, null, or
  the list of commits. Every exception is caught and logged by the function itself.
\<close>

definition linkCommitsToPullRequest ::
  "(nat \<Rightarrow> nat) \<Rightarrow> string \<Rightarrow> (error + commitData list option) \<Rightarrow> store \<Rightarrow> linkOutcome \<times> store" where
  "linkCommitsToPullRequest clock prId fetched s =
     (case fetched of
        Inl e \<Rightarrow> (Swallowed e, s)
      | Inr None \<Rightarrow> (NoCommits, s)
      | Inr (Some prCommits) \<Rightarrow>
          if prCommits = [] then (NoCommits, s)
          else
            (case linkLoop clock 0 prId prCommits s of
               (Some e, s1) \<Rightarrow> (Swallowed e, s1)
             | (None, s1) \<Rightarrow>
                 (case earliest (linkedCommits s1 prId) of
                    None \<Rightarrow> (Completed, s1)
                  | Some earliestCommit \<Rightarrow>
                      (case pullRequests s1 prId of
                         None \<Rightarrow> (Swallowed RecordNotFound, s1)
                       | Some pr \<Rightarrow>
                           (Completed,
                            s1\<lparr>pullRequests := (pullRequests s1)(prId \<mapsto>
                                 pr\<lparr>pr_firstCommitAt :=
                                      Some (c_committedAt earliestCommit)\<rparr>)\<rparr>)))))"


subsection \<open>Sequences of award operations\<close>

text \<open>
  The two operations that change points, run one after the other on the store. An
  operation that throws leaves the store as it was at the throw; the next one starts
  from there, as the next webhook delivery would.
\<close>

text \<open>Same user ids, row by row, and no level lower than before.\<close>

definition levelsLe :: "store \<Rightarrow> store \<Rightarrow> bool" where
  "levelsLe s s' \<longleftrightarrow>
     list_all2 (\<lambda>u u'. u_id u' = u_id u \<and> u_level u \<le> u_level u') (users s) (users s')"

datatype awardOp = MergeAward string | ReviewAward string string string

fun applyAward :: "awardOp \<Rightarrow> store \<Rightarrow> store" where
  "applyAward (MergeAward prId) s = snd (calculateAndAwardPoints prId s)"
| "applyAward (ReviewAward userId prId reviewState) s =
     snd (awardPointsForReview userId prId reviewState s)"

fun applyAwards :: "awardOp list \<Rightarrow> store \<Rightarrow> store" where
  "applyAwards [] s = s"
| "applyAwards (op # ops) s = applyAwards ops (applyAward op s)"

subsection \<open>Example data\<close>

text \<open>
  One account with one repository, one member and one merged pull request scored 85.
\<close>

definition alice :: user where
  "alice = \<lparr>u_id = ''u1'', u_login = ''alice'', u_email = None, u_name = None,
             u_accountId = ''a1'', u_points = 40, u_level = 1\<rparr>"

definition demoPR :: pullRequest where
  "demoPR = \<lparr>pr_number = 7, pr_title = ''Add parser'', pr_description = Some ''plain text'',
              pr_repositoryId = ''r1'', pr_authorId = ''u1'', pr_state = MERGED,
              pr_additions = 10, pr_deletions = 2, pr_changedFiles = 1,
              pr_reviewerIds = [], pr_firstCommitAt = None,
              pr_mergedAt = Some 1704153600000, pr_closedAt = Some 1704153600000,
              pr_overallScore = Some 85, pr_pointsAwarded = None\<rparr>"

definition demoAccount :: account where
  "demoAccount = \<lparr>acc_name = ''acme'', acc_type = ''ORGANIZATION'', acc_installationId = ''42''\<rparr>"

definition demoRepo :: repository where
  "demoRepo = \<lparr>repo_name = ''app'', repo_fullName = ''acme/app'', repo_accountId = ''a1''\<rparr>"

definition demoStore :: store where
  "demoStore =
     \<lparr>accounts = [''a1'' \<mapsto> demoAccount],
      repositories = [''r1'' \<mapsto> demoRepo],
      users = [alice],
      memberships = [(''u1'', ''a1'')],
      pullRequests = [''pr1'' \<mapsto> demoPR],
      commits = [],
      pullRequestFiles = [],
      pointTransactions = []\<rparr>"

text \<open>
  A second account with a repository and a merged pull request by the same author, who
  is not yet a member there; \<open>guestStore\<close> is that store after the author was registered
  under the second account: a membership row is added, the home account stays the first.
\<close>

definition twoAccountStore :: store where
  "twoAccountStore =
     demoStore\<lparr>accounts := [''a1'' \<mapsto> demoAccount,
                              ''a2'' \<mapsto> \<lparr>acc_name = ''globex'', acc_type = ''ORGANIZATION'',
                                            acc_installationId = ''43''\<rparr>],
                 repositories := [''r1'' \<mapsto> demoRepo,
                                  ''r2'' \<mapsto> \<lparr>repo_name = ''site'', repo_fullName = ''globex/site'',
                                                repo_accountId = ''a2''\<rparr>],
                 pullRequests := [''pr1'' \<mapsto> demoPR,
                                  ''pr2'' \<mapsto> demoPR\<lparr>pr_repositoryId := ''r2''\<rparr>]\<rparr>"

definition guestStore :: store where
  "guestStore = twoAccountStore\<lparr>memberships := [(''u1'', ''a1''), (''u1'', ''a2'')]\<rparr>"


text \<open>A stored file row of the example pull request, and one changed file.\<close>

definition demoFile :: fileData where
  "demoFile = \<lparr>fd_filename = ''src/a.ts'', fd_status = ''modified'', fd_additions = 3,
                fd_deletions = 1, fd_changes = 4, fd_patch = Some ''@@ -1 +1 @@''\<rparr>"

definition staleFilesStore :: store where
  "staleFilesStore = demoStore\<lparr>pullRequestFiles := [fileRow ''pr1'' demoFile]\<rparr>"

text \<open>A database that accepts every statement, and one that rejects every insert.\<close>

definition acceptingDb :: persistence where
  "acceptingDb = \<lparr>deleteAccepted = True, createAccepted = (\<lambda>file. True)\<rparr>"

definition rejectingDb :: persistence where
  "rejectingDb = \<lparr>deleteAccepted = True, createAccepted = (\<lambda>file. False)\<rparr>"

text \<open>
  A payload that carries all four candidate account ids: 1 at
  \<^verbatim>\<open>installation.account.id\<close>, 2 at \<^verbatim>\<open>organization.id\<close>, 3 at \<^verbatim>\<open>repository.owner.id\<close>
  and 4 at \<^verbatim>\<open>sender.id\<close>.
\<close>

definition fullPayload :: payload where
  "fullPayload =
     \<lparr>p_action = ''created'',
      p_installation = Some \<lparr>i_id = Some 9, i_account = Some \<lparr>o_id = Some 1\<rparr>\<rparr>,
      p_organization = Some \<lparr>o_id = Some 2\<rparr>,
      p_repository = Some \<lparr>r_id = 5, r_full_name = ''acme/app'',
                            r_owner = Some \<lparr>o_id = Some 3\<rparr>\<rparr>,
      p_sender = Some \<lparr>o_id = Some 4\<rparr>,
      p_pull_request = True,
      p_review = True,
      p_issue = Some \<lparr>is_pull_request = True\<rparr>\<rparr>"

text \<open>
  A closed, unmerged pull request with a plain-text body, and an encryption capability
  that throws on every input.
\<close>

definition closedPrData :: prData where
  "closedPrData =
     \<lparr>pd_id = 11, pd_number = 8, pd_title = ''Fix typo'', pd_body = Some ''plain text'',
      pd_state = ''closed'', pd_merged = False, pd_additions = 1, pd_deletions = 1,
      pd_changed_files = 1, pd_merged_at = None,
      pd_closed_at = Some 1704240000000, pd_user = Some 1\<rparr>"

definition failingEncrypt :: "string \<Rightarrow> error + string" where
  "failingEncrypt text = Inl EncryptionFailure"

definition neverEncrypted :: "string \<Rightarrow> bool" where
  "neverEncrypted text = False"

text \<open>An encryption capability that succeeds, and a merged pull request reported as open.\<close>

definition markingEncrypt :: "string \<Rightarrow> error + string" where
  "markingEncrypt text = Inr (''enc:'' @ text)"

definition mergedOpenPrData :: prData where
  "mergedOpenPrData = closedPrData\<lparr>pd_state := ''open'', pd_merged := True\<rparr>"

text \<open>
  Commit linking: one commit is stored but not linked; upstream reports it and two
  commits that are not stored, the last one without a GitHub user. \<open>brokenCommits\<close>
  ends with a commit whose \<^verbatim>\<open>commit.author\<close> is null.
\<close>

definition localCommit :: commit where
  "localCommit = \<lparr>c_id = ''aaa'', c_sha = ''aaa'', c_message = ''first'', c_authorId = ''u1'',
                   c_repositoryId = ''r1'', c_committedAt = 300, c_pullRequests = []\<rparr>"

definition linkStore :: store where
  "linkStore = demoStore\<lparr>commits := [localCommit]\<rparr>"

definition githubAlice :: authorData where
  "githubAlice = \<lparr>ad_id = Some 1, ad_login = Some ''alice'', ad_name = None, ad_email = None,
                   ad_date = None\<rparr>"

definition gitAuthorAt :: "string \<Rightarrow> string \<Rightarrow> int \<Rightarrow> authorData" where
  "gitAuthorAt name email date =
     \<lparr>ad_id = None, ad_login = None, ad_name = Some name, ad_email = Some email,
      ad_date = Some date\<rparr>"

definition upstreamCommits :: "commitData list" where
  "upstreamCommits =
     [\<lparr>cm_sha = ''aaa'', cm_author = Some githubAlice,
       cm_commit = Some \<lparr>cd_message = ''first'',
                          cd_author = Some (gitAuthorAt ''Alice'' ''alice@example.org'' 300)\<rparr>\<rparr>,
      \<lparr>cm_sha = ''bbb'', cm_author = Some githubAlice,
       cm_commit = Some \<lparr>cd_message = ''second'',
                          cd_author = Some (gitAuthorAt ''Alice'' ''alice@example.org'' 100)\<rparr>\<rparr>,
      \<lparr>cm_sha = ''ccc'', cm_author = None,
       cm_commit = Some \<lparr>cd_message = ''third'',
                          cd_author = Some (gitAuthorAt ''Bob'' ''bob@example.org'' 200)\<rparr>\<rparr>]"

definition brokenCommits :: "commitData list" where
  "brokenCommits =
     [\<lparr>cm_sha = ''bbb'', cm_author = Some githubAlice,
       cm_commit = Some \<lparr>cd_message = ''second'',
                          cd_author = Some (gitAuthorAt ''Alice'' ''alice@example.org'' 100)\<rparr>\<rparr>,
      \<lparr>cm_sha = ''ddd'', cm_author = Some githubAlice,
       cm_commit = Some \<lparr>cd_message = ''fourth'', cd_author = None\<rparr>\<rparr>]"

definition demoClock :: "nat \<Rightarrow> nat" where
  "demoClock i = 1000 + i"

section \<open>Verified properties\<close>

subsection \<open>Strings\<close>

lemma startsWith_iff: "startsWith s sub \<longleftrightarrow> (\<exists>q. s = sub @ q)"
  by (induction s sub rule: startsWith.induct) auto

lemma includes_iff: "includesStr s sub \<longleftrightarrow> (\<exists>p q. s = p @ sub @ q)"
proof (induction s)
  case Nil
  then show ?case by auto
next
  case (Cons x xs)
  show ?case
  proof
    assume "includesStr (x # xs) sub"
    then consider "startsWith (x # xs) sub" | "includesStr xs sub" by auto
    then show "\<exists>p q. x # xs = p @ sub @ q"
    proof cases
      case 1
      then obtain q where "x # xs = sub @ q" using startsWith_iff by blast
      then have "x # xs = [] @ sub @ q" by simp
      then show ?thesis by blast
    next
      case 2
      then obtain p q where "xs = p @ sub @ q" using Cons.IH by blast
      then have "x # xs = (x # p) @ sub @ q" by simp
      then show ?thesis by blast
    qed
  next
    assume "\<exists>p q. x # xs = p @ sub @ q"
    then obtain p q where pq: "x # xs = p @ sub @ q" by blast
    show "includesStr (x # xs) sub"
    proof (cases p)
      case Nil
      with pq have "startsWith (x # xs) sub" using startsWith_iff by auto
      then show ?thesis by simp
    next
      case (Cons y ys)
      with pq have "xs = ys @ sub @ q" by simp
      then have "includesStr xs sub" using Cons.IH by blast
      then show ?thesis by simp
    qed
  qed
qed

subsection \<open>Retry classification\<close>

text \<open>
  C1. An error carrying a message is classified non-retryable exactly when the
  message contains ``not found'', ``invalid signature'' or ``already exists'', and
  retryable otherwise.
\<close>

theorem isRetryableError_classification:
  assumes "message e = Some m"
  shows "isRetryableError e =
           Inr (\<not> ((\<exists>p q. m = p @ ''not found'' @ q) \<or>
                    (\<exists>p q. m = p @ ''invalid signature'' @ q) \<or>
                    (\<exists>p q. m = p @ ''already exists'' @ q)))"
proof -
  have "isRetryableError e =
          Inr (\<not> includesStr m ''not found'' \<and>
               \<not> includesStr m ''invalid signature'' \<and>
               \<not> includesStr m ''already exists'')"
    using assms by (simp add: isRetryableError_def)
  then show ?thesis
    by (simp only: includes_iff de_Morgan_disj)
qed

theorem isRetryableError_classification_witness:
  "isRetryableError \<lparr>message = Some ''Pull request not found''\<rparr> = Inr False \<and>
   isRetryableError \<lparr>message = Some ''connection timeout''\<rparr> = Inr True"
proof -
  have a: "message \<lparr>message = Some ''Pull request not found''\<rparr> = Some ''Pull request not found''"
    by simp
  have b: "message \<lparr>message = Some ''connection timeout''\<rparr> = Some ''connection timeout''"
    by simp
  have c: "includesStr ''Pull request not found'' ''not found''"
    by simp
  have d: "\<not> includesStr ''connection timeout'' ''not found'' \<and>
           \<not> includesStr ''connection timeout'' ''invalid signature'' \<and>
           \<not> includesStr ''connection timeout'' ''already exists''"
    by simp
  show ?thesis
    using isRetryableError_classification [OF a] isRetryableError_classification [OF b] c d
    by (simp only: includes_iff de_Morgan_disj simp_thms)
qed

subsection \<open>Helper facts about users and levels\<close>

lemma findUser_ex: "findUser s uid = Some u \<Longrightarrow> list_ex (\<lambda>v. u_id v = uid) (users s)"
  by (auto simp: findUser_def list_ex_iff find_Some_iff)

lemma findUser_mem: "findUser s uid = Some u \<Longrightarrow> u \<in> set (users s) \<and> u_id u = uid"
  by (auto simp: findUser_def find_Some_iff)

lemma checkAndUpdateUserLevel_ok: "fst (checkAndUpdateUserLevel uid acc s) = Inr ()"
  by (auto simp: checkAndUpdateUserLevel_def updateUsers_def Let_def findUser_ex split: option.splits)

lemma checkAndUpdateUserLevel_store:
  "snd (checkAndUpdateUserLevel uid acc s) =
     (case findUser s uid of
        None \<Rightarrow> s
      | Some u \<Rightarrow>
          if u_points u div 100 + 1 > u_level u
          then s\<lparr>users := map (\<lambda>v. if u_id v = uid then v\<lparr>u_level := u_points u div 100 + 1\<rparr> else v) (users s)\<rparr>
          else s)"
  by (auto simp: checkAndUpdateUserLevel_def updateUsers_def Let_def findUser_ex split: option.splits)

lemma levelsLe_refl: "levelsLe s s"
  by (simp add: levelsLe_def list_all2_same)

lemma levelsLe_trans:
  assumes "levelsLe s t" and "levelsLe t r"
  shows "levelsLe s r"
proof -
  have a: "list_all2 (\<lambda>u u'. u_id u' = u_id u \<and> u_level u \<le> u_level u') (users s) (users t)"
    using assms(1) by (simp add: levelsLe_def)
  have b: "list_all2 (\<lambda>u u'. u_id u' = u_id u \<and> u_level u \<le> u_level u') (users t) (users r)"
    using assms(2) by (simp add: levelsLe_def)
  have "list_all2 (\<lambda>u u'. u_id u' = u_id u \<and> u_level u \<le> u_level u') (users s) (users r)"
    by (rule list_all2_trans [OF _ a b]) auto
  then show ?thesis by (simp add: levelsLe_def)
qed

lemma list_all2_same_ids:
  "list_all2 (\<lambda>u u'. u_id u' = u_id u \<and> u_level u \<le> u_level u') xs ys \<Longrightarrow>
   map u_id ys = map u_id xs"
  by (induction xs ys rule: list_all2_induct) auto

lemma levelsLe_ids: "levelsLe s s' \<Longrightarrow> map u_id (users s') = map u_id (users s)"
  unfolding levelsLe_def by (rule list_all2_same_ids)

lemma levelsLe_map:
  assumes "\<And>u. u \<in> set (users s) \<Longrightarrow> u_id (f u) = u_id u \<and> u_level u \<le> u_level (f u)"
  shows "levelsLe s (s\<lparr>users := map f (users s)\<rparr>)"
  using assms by (simp add: levelsLe_def list_all2_map2 list_all2_same)

lemma checkAndUpdateUserLevel_mono:
  assumes "distinct (map u_id (users s))"
  shows "levelsLe s (snd (checkAndUpdateUserLevel uid acc s))"
proof (cases "findUser s uid")
  case None
  then show ?thesis by (simp add: checkAndUpdateUserLevel_store levelsLe_refl)
next
  case (Some u)
  have inj: "inj_on u_id (set (users s))" using assms by (simp add: distinct_map)
  have only: "v = u" if "v \<in> set (users s)" "u_id v = uid" for v
    using that findUser_mem [OF Some] inj by (auto dest: inj_onD)
  show ?thesis
  proof (cases "u_points u div 100 + 1 > u_level u")
    case True
    have "levelsLe s (s\<lparr>users := map (\<lambda>v. if u_id v = uid then v\<lparr>u_level := u_points u div 100 + 1\<rparr> else v) (users s)\<rparr>)"
      by (rule levelsLe_map) (use True only in auto)
    then show ?thesis using Some True by (simp add: checkAndUpdateUserLevel_store)
  next
    case False
    then show ?thesis using Some by (simp add: checkAndUpdateUserLevel_store levelsLe_refl)
  qed
qed

lemma updateUsers_points_levelsLe:
  "updateUsers sel (\<lambda>u. u\<lparr>u_points := g u\<rparr>) s = Inr s' \<Longrightarrow> levelsLe s s'"
  by (auto simp: updateUsers_def levelsLe_def list_all2_map2 list_all2_same split: if_splits)

lemma levelsLe_distinct: "levelsLe s s' \<Longrightarrow> distinct (map u_id (users s)) \<Longrightarrow> distinct (map u_id (users s'))"
  by (simp add: levelsLe_ids)

lemma award_then_check:
  assumes "distinct (map u_id (users s))"
    and "updateUsers sel (\<lambda>u. u\<lparr>u_points := g u\<rparr>) s = Inr s1"
    and "users s3 = users s1"
  shows "levelsLe s (snd (checkAndUpdateUserLevel uid acc s3))"
proof -
  have "levelsLe s s1" using assms(2) by (rule updateUsers_points_levelsLe)
  then have a: "levelsLe s s3" using assms(3) by (simp add: levelsLe_def)
  then have "distinct (map u_id (users s3))" using assms(1) levelsLe_distinct by blast
  then have "levelsLe s3 (snd (checkAndUpdateUserLevel uid acc s3))"
    by (rule checkAndUpdateUserLevel_mono)
  with a show ?thesis by (rule levelsLe_trans)
qed

lemma calculateAndAwardPoints_mono:
  assumes "distinct (map u_id (users s))"
  shows "levelsLe s (snd (calculateAndAwardPoints prId s))"
  unfolding calculateAndAwardPoints_def Let_def
  by (auto split: option.splits sum.splits
           simp: levelsLe_refl updateUsers_points_levelsLe
           intro!: award_then_check [OF assms])

lemma awardPointsForReview_mono:
  assumes "distinct (map u_id (users s))"
  shows "levelsLe s (snd (awardPointsForReview userId prId reviewState s))"
  unfolding awardPointsForReview_def Let_def
  by (auto split: option.splits sum.splits
           simp: levelsLe_refl updateUsers_points_levelsLe
           intro!: award_then_check [OF assms])

lemma applyAward_mono:
  "distinct (map u_id (users s)) \<Longrightarrow> levelsLe s (applyAward op s)"
  by (cases op) (simp_all add: calculateAndAwardPoints_mono awardPointsForReview_mono)

lemma applyAwards_mono:
  "distinct (map u_id (users s)) \<Longrightarrow> levelsLe s (applyAwards ops s)"
proof (induction ops arbitrary: s)
  case Nil
  then show ?case by (simp add: levelsLe_refl)
next
  case (Cons op ops)
  have a: "levelsLe s (applyAward op s)" using Cons.prems by (rule applyAward_mono)
  then have "distinct (map u_id (users (applyAward op s)))"
    using Cons.prems levelsLe_distinct by blast
  then have "levelsLe (applyAward op s) (applyAwards ops (applyAward op s))"
    by (rule Cons.IH)
  with a show ?case by (simp add: levelsLe_trans)
qed

subsection \<open>Points for a merged pull request\<close>

text \<open>
  What \<open>calculateAndAwardPoints\<close> does for a scored pull request whose repository row
  exists: without a membership of the author in the repository's account nothing
  changes; with the membership, a user row of the author whose home account is that
  account, and the account row, the points, the transaction and \<open>pointsAwarded\<close> are
  written.
\<close>

lemma calculateAndAwardPoints_awards:
  assumes "pullRequests s prId = Some pr"
    and "pr_overallScore pr = Some score"
    and "score \<noteq> 0"
    and "repositories s (pr_repositoryId pr) = Some repo"
  shows "((pr_authorId pr, repo_accountId repo) \<notin> set (memberships s) \<longrightarrow>
            calculateAndAwardPoints prId s = (Inr (), s)) \<and>
         ((pr_authorId pr, repo_accountId repo) \<in> set (memberships s) \<and>
          list_ex (\<lambda>u. u_id u = pr_authorId pr \<and> u_accountId u = repo_accountId repo) (users s) \<and>
          accounts s (repo_accountId repo) \<noteq> None \<longrightarrow>
            fst (calculateAndAwardPoints prId s) = Inr () \<and>
            map u_points (users (snd (calculateAndAwardPoints prId s))) =
              map (\<lambda>u. if u_id u = pr_authorId pr \<and> u_accountId u = repo_accountId repo
                        then u_points u + round score else u_points u) (users s) \<and>
            pointTransactions (snd (calculateAndAwardPoints prId s)) =
              pointTransactions s @
                [\<lparr>pt_userId = pr_authorId pr, pt_accountId = repo_accountId repo,
                  pt_amount = round score, pt_reason = ''pr_merged'',
                  pt_referenceId = prId, pt_referenceType = ''pullrequest''\<rparr>] \<and>
            pullRequests (snd (calculateAndAwardPoints prId s)) =
              (pullRequests s)(prId \<mapsto> pr\<lparr>pr_pointsAwarded := Some (round score)\<rparr>))"
proof (intro conjI impI)
  assume "(pr_authorId pr, repo_accountId repo) \<notin> set (memberships s)"
  then show "calculateAndAwardPoints prId s = (Inr (), s)"
    using assms by (simp add: calculateAndAwardPoints_def)
next
  assume h: "(pr_authorId pr, repo_accountId repo) \<in> set (memberships s) \<and>
          list_ex (\<lambda>u. u_id u = pr_authorId pr \<and> u_accountId u = repo_accountId repo) (users s) \<and>
          accounts s (repo_accountId repo) \<noteq> None"
  define s1 where "s1 = s\<lparr>users := map (\<lambda>u. if u_id u = pr_authorId pr \<and> u_accountId u = repo_accountId repo
                        then u\<lparr>u_points := u_points u + round score\<rparr> else u) (users s)\<rparr>"
  define s3 where "s3 = s1\<lparr>pointTransactions := pointTransactions s1 @
                [\<lparr>pt_userId = pr_authorId pr, pt_accountId = repo_accountId repo,
                  pt_amount = round score, pt_reason = ''pr_merged'',
                  pt_referenceId = prId, pt_referenceType = ''pullrequest''\<rparr>],
                 pullRequests := (pullRequests s1)(prId \<mapsto> pr\<lparr>pr_pointsAwarded := Some (round score)\<rparr>)\<rparr>"
  have res: "calculateAndAwardPoints prId s =
               checkAndUpdateUserLevel (pr_authorId pr) (repo_accountId repo) s3"
    using assms h
    by (auto simp: calculateAndAwardPoints_def updateUsers_def Let_def s1_def s3_def)
  show "fst (calculateAndAwardPoints prId s) = Inr ()"
    by (simp add: res checkAndUpdateUserLevel_ok)
  have tabs: "pointTransactions (snd (checkAndUpdateUserLevel a b t)) = pointTransactions t \<and>
              pullRequests (snd (checkAndUpdateUserLevel a b t)) = pullRequests t \<and>
              map u_points (users (snd (checkAndUpdateUserLevel a b t))) = map u_points (users t)"
    for a b t
    by (auto simp: checkAndUpdateUserLevel_store split: option.splits)
  show "map u_points (users (snd (calculateAndAwardPoints prId s))) =
              map (\<lambda>u. if u_id u = pr_authorId pr \<and> u_accountId u = repo_accountId repo
                        then u_points u + round score else u_points u) (users s)"
    by (simp add: res tabs s3_def s1_def)
  show "pointTransactions (snd (calculateAndAwardPoints prId s)) =
              pointTransactions s @
                [\<lparr>pt_userId = pr_authorId pr, pt_accountId = repo_accountId repo,
                  pt_amount = round score, pt_reason = ''pr_merged'',
                  pt_referenceId = prId, pt_referenceType = ''pullrequest''\<rparr>]"
    by (simp add: res tabs s3_def s1_def)
  show "pullRequests (snd (calculateAndAwardPoints prId s)) =
              (pullRequests s)(prId \<mapsto> pr\<lparr>pr_pointsAwarded := Some (round score)\<rparr>)"
    by (simp add: res tabs s3_def s1_def)
qed

lemmas demo_defs = demoStore_def demoPR_def alice_def demoRepo_def demoAccount_def

lemmas award_defs = calculateAndAwardPoints_def awardPointsForReview_def reviewPoints_def
  updateUsers_def checkAndUpdateUserLevel_def findUser_def Let_def

lemma calculateAndAwardPoints_zero_score:
  assumes "pullRequests s prId = Some pr" and "pr_overallScore pr = Some 0"
  shows "calculateAndAwardPoints prId s = (Inr (), s)"
  using assms by (simp add: calculateAndAwardPoints_def)

text \<open>
  C4. The author of \<open>pr2\<close> is registered under the second account by
  \<open>ensureUserExists\<close>, which adds the membership and leaves the home account alone. The
  membership gate of \<open>calculateAndAwardPoints\<close> passes, but the points update selects on
  id and home account, finds no row and throws: nothing is awarded. On the same store,
  \<open>awardPointsForReview\<close> selects on the id alone and awards its 10 points.
\<close>

theorem calculateAndAwardPoints_home_account_elsewhere:
  "findUser twoAccountStore ''u1'' = Some alice \<and>
   ensureUserExists ''u1'' ''alice'' ''a2'' twoAccountStore = (Inr (), guestStore) \<and>
   (''u1'', ''a2'') \<in> set (memberships guestStore) \<and>
   map u_points (users guestStore) = [40] \<and>
   calculateAndAwardPoints ''pr2'' guestStore = (Inl RecordNotFound, guestStore) \<and>
   map u_points (users (snd (awardPointsForReview ''u1'' ''pr2'' ''APPROVED'' guestStore))) = [50]"
  by (simp add: guestStore_def twoAccountStore_def demo_defs award_defs ensureUserExists_def)

subsection \<open>Points for a review\<close>

text \<open>
  C5 (amended). The points of a review depend on the review state only: 10 for
  APPROVED, 15 for CHANGES_REQUESTED, 5 for COMMENTED, 0 for anything else, and with 0
  points nothing changes. When the pull request is not stored, nothing is awarded either.
  When the points are positive and the pull request, the reviewer's user row, the
  repository row and its account row are stored, the reviewer's points grow by that
  amount and exactly one transaction with reason \<^verbatim>\<open>review_submitted\<close> and that amount is
  appended.
\<close>

theorem awardPointsForReview_awards:
  "reviewPoints ''APPROVED'' = 10 \<and>
   reviewPoints ''CHANGES_REQUESTED'' = 15 \<and>
   reviewPoints ''COMMENTED'' = 5 \<and>
   (reviewState \<noteq> ''APPROVED'' \<and> reviewState \<noteq> ''CHANGES_REQUESTED'' \<and>
    reviewState \<noteq> ''COMMENTED'' \<longrightarrow>
      reviewPoints reviewState = 0 \<and>
      awardPointsForReview userId prId reviewState s = (Inr (), s)) \<and>
   (pullRequests s prId = None \<longrightarrow>
      awardPointsForReview userId prId reviewState s = (Inr (), s)) \<and>
   (reviewPoints reviewState > 0 \<and>
    pullRequests s prId = Some pr \<and>
    list_ex (\<lambda>u. u_id u = userId) (users s) \<and>
    repositories s (pr_repositoryId pr) = Some repo \<and>
    accounts s (repo_accountId repo) \<noteq> None \<longrightarrow>
      fst (awardPointsForReview userId prId reviewState s) = Inr () \<and>
      map u_points (users (snd (awardPointsForReview userId prId reviewState s))) =
        map (\<lambda>u. if u_id u = userId then u_points u + reviewPoints reviewState else u_points u)
          (users s) \<and>
      pointTransactions (snd (awardPointsForReview userId prId reviewState s)) =
        pointTransactions s @
          [\<lparr>pt_userId = userId, pt_accountId = repo_accountId repo,
            pt_amount = reviewPoints reviewState, pt_reason = ''review_submitted'',
            pt_referenceId = prId, pt_referenceType = ''pullrequest''\<rparr>])"
proof (intro conjI impI)
  show "reviewPoints ''APPROVED'' = 10" "reviewPoints ''CHANGES_REQUESTED'' = 15"
    "reviewPoints ''COMMENTED'' = 5"
    by (simp_all add: reviewPoints_def)
next
  assume "reviewState \<noteq> ''APPROVED'' \<and> reviewState \<noteq> ''CHANGES_REQUESTED'' \<and>
    reviewState \<noteq> ''COMMENTED''"
  then show "reviewPoints reviewState = 0"
    "awardPointsForReview userId prId reviewState s = (Inr (), s)"
    by (simp_all add: reviewPoints_def awardPointsForReview_def)
next
  assume "pullRequests s prId = None"
  then show "awardPointsForReview userId prId reviewState s = (Inr (), s)"
    by (simp add: awardPointsForReview_def Let_def)
next
  assume h: "reviewPoints reviewState > 0 \<and>
    pullRequests s prId = Some pr \<and>
    list_ex (\<lambda>u. u_id u = userId) (users s) \<and>
    repositories s (pr_repositoryId pr) = Some repo \<and>
    accounts s (repo_accountId repo) \<noteq> None"
  define s2 where "s2 = s\<lparr>users := map (\<lambda>u. if u_id u = userId
                        then u\<lparr>u_points := u_points u + reviewPoints reviewState\<rparr> else u) (users s),
                  pointTransactions := pointTransactions s @
          [\<lparr>pt_userId = userId, pt_accountId = repo_accountId repo,
            pt_amount = reviewPoints reviewState, pt_reason = ''review_submitted'',
            pt_referenceId = prId, pt_referenceType = ''pullrequest''\<rparr>]\<rparr>"
  have res: "awardPointsForReview userId prId reviewState s =
               checkAndUpdateUserLevel userId (repo_accountId repo) s2"
    using h by (auto simp: awardPointsForReview_def updateUsers_def Let_def s2_def)
  have tabs: "pointTransactions (snd (checkAndUpdateUserLevel a b t)) = pointTransactions t \<and>
              map u_points (users (snd (checkAndUpdateUserLevel a b t))) = map u_points (users t)"
    for a b t
    by (auto simp: checkAndUpdateUserLevel_store split: option.splits)
  show "fst (awardPointsForReview userId prId reviewState s) = Inr ()"
    by (simp add: res checkAndUpdateUserLevel_ok)
  show "map u_points (users (snd (awardPointsForReview userId prId reviewState s))) =
        map (\<lambda>u. if u_id u = userId then u_points u + reviewPoints reviewState else u_points u)
          (users s)"
    by (simp add: res tabs s2_def)
  show "pointTransactions (snd (awardPointsForReview userId prId reviewState s)) =
        pointTransactions s @
          [\<lparr>pt_userId = userId, pt_accountId = repo_accountId repo,
            pt_amount = reviewPoints reviewState, pt_reason = ''review_submitted'',
            pt_referenceId = prId, pt_referenceType = ''pullrequest''\<rparr>]"
    by (simp add: res tabs s2_def)
qed

theorem awardPointsForReview_awards_witness:
  "reviewPoints ''DISMISSED'' = 0 \<and>
   awardPointsForReview ''u1'' ''pr1'' ''DISMISSED'' demoStore = (Inr (), demoStore) \<and>
   awardPointsForReview ''u1'' ''pr404'' ''APPROVED'' demoStore = (Inr (), demoStore) \<and>
   fst (awardPointsForReview ''u1'' ''pr1'' ''APPROVED'' demoStore) = Inr () \<and>
   map u_points (users (snd (awardPointsForReview ''u1'' ''pr1'' ''APPROVED'' demoStore))) = [50] \<and>
   pointTransactions (snd (awardPointsForReview ''u1'' ''pr1'' ''APPROVED'' demoStore)) =
     [\<lparr>pt_userId = ''u1'', pt_accountId = ''a1'', pt_amount = 10,
       pt_reason = ''review_submitted'', pt_referenceId = ''pr1'',
       pt_referenceType = ''pullrequest''\<rparr>]"
  using awardPointsForReview_awards [of "''DISMISSED''" "''u1''" "''pr1''" demoStore demoPR demoRepo]
    awardPointsForReview_awards [of "''APPROVED''" "''u1''" "''pr404''" demoStore demoPR demoRepo]
    awardPointsForReview_awards [of "''APPROVED''" "''u1''" "''pr1''" demoStore demoPR demoRepo]
  by (simp add: demo_defs)

text \<open>
  An APPROVED review of a pull request that is not stored: the points are positive, yet
  no transaction is appended and no user row changes.
\<close>

theorem awardPointsForReview_missing_pr_counterexample:
  "reviewPoints ''APPROVED'' = 10 \<and>
   pointTransactions (snd (awardPointsForReview ''u1'' ''pr404'' ''APPROVED'' demoStore)) =
     pointTransactions demoStore \<and>
   users (snd (awardPointsForReview ''u1'' ''pr404'' ''APPROVED'' demoStore)) = users demoStore"
  by (simp add: demo_defs award_defs)

subsection \<open>Registrar\<close>

text \<open>
  C10 (amended). When the user already exists, \<open>ensureUserExists\<close> returns normally and
  never touches the user rows; the store changes in at most two places: the account row
  for \<open>accountId\<close> is inserted when it is missing, and one membership row for
  \<open>(userId, accountId)\<close> is inserted when it is missing.
\<close>

theorem ensureUserExists_existing_user:
  assumes "findUser s userId = Some u"
  shows "ensureUserExists userId login accountId s =
     (Inr (),
      s\<lparr>accounts :=
           (case accounts s accountId of
              Some a \<Rightarrow> accounts s
            | None \<Rightarrow> (accounts s)(accountId \<mapsto>
                \<lparr>acc_name = login, acc_type = ''ORGANIZATION'', acc_installationId = ''unknown''\<rparr>)),
        memberships :=
           (if (userId, accountId) \<in> set (memberships s) then memberships s
            else memberships s @ [(userId, accountId)])\<rparr>) \<and>
     users (snd (ensureUserExists userId login accountId s)) = users s"
  using assms
  by (auto simp: ensureUserExists_def findUser_def Let_def split: option.splits)

theorem ensureUserExists_existing_user_witness:
  "ensureUserExists ''u1'' ''alice'' ''a1'' demoStore = (Inr (), demoStore) \<and>
   ensureUserExists ''u1'' ''alice'' ''a2'' demoStore =
     (Inr (),
      demoStore\<lparr>accounts := [''a1'' \<mapsto> demoAccount,
                              ''a2'' \<mapsto> \<lparr>acc_name = ''alice'', acc_type = ''ORGANIZATION'',
                                            acc_installationId = ''unknown''\<rparr>],
                 memberships := [(''u1'', ''a1''), (''u1'', ''a2'')]\<rparr>) \<and>
   users (snd (ensureUserExists ''u1'' ''alice'' ''a2'' demoStore)) = [alice]"
proof -
  have f: "findUser demoStore ''u1'' = Some alice"
    by (simp add: findUser_def demoStore_def alice_def)
  show ?thesis
    using ensureUserExists_existing_user [OF f, of "''alice''" "''a1''"]
      ensureUserExists_existing_user [OF f, of "''alice''" "''a2''"]
    by (simp add: demoStore_def)
qed

text \<open>
  An existing user referenced under an account that is not stored yet: besides the
  membership row, an account row is inserted.
\<close>

theorem ensureUserExists_creates_account_counterexample:
  "findUser demoStore ''u1'' = Some alice \<and>
   accounts demoStore ''a2'' = None \<and>
   accounts (snd (ensureUserExists ''u1'' ''alice'' ''a2'' demoStore)) ''a2'' =
     Some \<lparr>acc_name = ''alice'', acc_type = ''ORGANIZATION'', acc_installationId = ''unknown''\<rparr>"
  by (simp add: ensureUserExists_def findUser_def demoStore_def alice_def)

subsection \<open>Levels\<close>

text \<open>
  C9. With user ids unique (the primary key of the table): \<open>checkAndUpdateUserLevel\<close>
  computes the candidate \<open>points div 100 + 1\<close> and writes it only when it is strictly
  greater than the stored level; no user's level is lower after it, nor after any
  sequence of point-award operations.
\<close>

theorem level_never_decreases:
  assumes "distinct (map u_id (users s))"
  shows "(\<forall>u. findUser s userId = Some u \<longrightarrow>
            checkAndUpdateUserLevel userId accountId s =
              (Inr (),
               if u_points u div 100 + 1 > u_level u
               then s\<lparr>users := map (\<lambda>v. if u_id v = userId
                                         then v\<lparr>u_level := u_points u div 100 + 1\<rparr> else v)
                                   (users s)\<rparr>
               else s)) \<and>
         list_all2 (\<lambda>u u'. u_id u' = u_id u \<and> u_level u \<le> u_level u')
           (users s) (users (snd (checkAndUpdateUserLevel userId accountId s))) \<and>
         list_all2 (\<lambda>u u'. u_id u' = u_id u \<and> u_level u \<le> u_level u')
           (users s) (users (applyAwards ops s))"
proof (intro conjI allI impI)
  fix u
  assume "findUser s userId = Some u"
  then show "checkAndUpdateUserLevel userId accountId s =
              (Inr (),
               if u_points u div 100 + 1 > u_level u
               then s\<lparr>users := map (\<lambda>v. if u_id v = userId
                                         then v\<lparr>u_level := u_points u div 100 + 1\<rparr> else v)
                                   (users s)\<rparr>
               else s)"
    using checkAndUpdateUserLevel_ok [of userId accountId s]
      checkAndUpdateUserLevel_store [of userId accountId s]
    by (simp add: prod_eq_iff)
next
  show "list_all2 (\<lambda>u u'. u_id u' = u_id u \<and> u_level u \<le> u_level u')
           (users s) (users (snd (checkAndUpdateUserLevel userId accountId s)))"
    using checkAndUpdateUserLevel_mono [OF assms] by (simp add: levelsLe_def)
next
  show "list_all2 (\<lambda>u u'. u_id u' = u_id u \<and> u_level u \<le> u_level u')
           (users s) (users (applyAwards ops s))"
    using applyAwards_mono [OF assms] by (simp add: levelsLe_def)
qed

theorem level_never_decreases_witness:
  "distinct (map u_id (users demoStore)) \<and>
   checkAndUpdateUserLevel ''u1'' ''a1'' (demoStore\<lparr>users := [alice\<lparr>u_points := 250\<rparr>]\<rparr>) =
     (Inr (), demoStore\<lparr>users := [alice\<lparr>u_points := 250, u_level := 3\<rparr>]\<rparr>) \<and>
   map u_level (users demoStore) = [1] \<and>
   map u_level (users (applyAwards [MergeAward ''pr1'', ReviewAward ''u1'' ''pr1'' ''APPROVED'']
                          demoStore)) = [2] \<and>
   list_all2 (\<lambda>u u'. u_id u' = u_id u \<and> u_level u \<le> u_level u')
     (users demoStore)
     (users (applyAwards [MergeAward ''pr1'', ReviewAward ''u1'' ''pr1'' ''APPROVED'']
               demoStore))"
proof -
  have d: "distinct (map u_id (users demoStore))" by (simp add: demoStore_def)
  have d': "distinct (map u_id (users (demoStore\<lparr>users := [alice\<lparr>u_points := 250\<rparr>]\<rparr>)))"
    by simp
  have f: "findUser (demoStore\<lparr>users := [alice\<lparr>u_points := 250\<rparr>]\<rparr>) ''u1'' =
             Some (alice\<lparr>u_points := 250\<rparr>)"
    by (simp add: findUser_def alice_def)
  have e: "map u_level (users (applyAwards [MergeAward ''pr1'', ReviewAward ''u1'' ''pr1'' ''APPROVED'']
                          demoStore)) = [2]"
    by (simp add: demo_defs award_defs)
  show ?thesis
    using level_never_decreases [OF d, of "''u1''" "''a1''"
        "[MergeAward ''pr1'', ReviewAward ''u1'' ''pr1'' ''APPROVED'']"]
      level_never_decreases [OF d', of "''u1''" "''a1''" "[]"] f d e
    by (simp add: alice_def demoStore_def)
qed

subsection \<open>Pull request files\<close>

lemma filter_other_rows:
  "filter (\<lambda>f. f_pullRequestId f \<noteq> prId) (map (fileRow prId) fs) = []"
  by (induction fs) (simp_all add: fileRow_def)

lemma filter_own_rows:
  "filter (\<lambda>f. f_pullRequestId f = prId) (map (fileRow prId) fs) = map (fileRow prId) fs"
  by (induction fs) (simp_all add: fileRow_def)

lemma filter_accepted_all: "list_all P fs \<Longrightarrow> filter P fs = fs"
  by (induction fs) simp_all

text \<open>
  C7 (amended). For a non-empty file list, a stored pull request and a database that
  accepts the delete and every insert, \<open>storePullRequestFiles\<close> deletes the rows of the
  pull request and inserts the given files: afterwards the rows of that pull request are
  exactly the rows of the given list, and a second such call with the same list changes
  nothing. A rejected delete or insert is swallowed: after a rejected delete the store is
  unchanged, and after an accepted delete the rows of the pull request are the rows of the
  accepted inserts (none when the pull request is not stored). The rows of other pull
  requests and all other tables are never touched. For an empty or null list the
  function returns before the delete and leaves every row in place.
\<close>

theorem storePullRequestFiles_replaces:
  "(fs \<noteq> [] \<and> deleteAccepted db \<and> list_all (createAccepted db) fs \<and>
    pullRequests s prId \<noteq> None \<longrightarrow>
      fst (storePullRequestFiles db prId (Some fs) s) = FilesStored \<and>
      filter (\<lambda>f. f_pullRequestId f = prId)
        (pullRequestFiles (snd (storePullRequestFiles db prId (Some fs) s))) =
      map (fileRow prId) fs \<and>
      storePullRequestFiles db prId (Some fs) (snd (storePullRequestFiles db prId (Some fs) s)) =
      storePullRequestFiles db prId (Some fs) s) \<and>
   (fs \<noteq> [] \<and> \<not> deleteAccepted db \<longrightarrow>
      storePullRequestFiles db prId (Some fs) s = (FilesSwallowed PersistenceFailure, s)) \<and>
   (fs \<noteq> [] \<and> deleteAccepted db \<longrightarrow>
      filter (\<lambda>f. f_pullRequestId f = prId)
        (pullRequestFiles (snd (storePullRequestFiles db prId (Some fs) s))) =
      (if pullRequests s prId = None then []
       else map (fileRow prId) (filter (createAccepted db) fs))) \<and>
   filter (\<lambda>f. f_pullRequestId f \<noteq> prId)
     (pullRequestFiles (snd (storePullRequestFiles db prId files s))) =
   filter (\<lambda>f. f_pullRequestId f \<noteq> prId) (pullRequestFiles s) \<and>
   snd (storePullRequestFiles db prId files s)
     \<lparr>pullRequestFiles := pullRequestFiles s\<rparr> = s \<and>
   storePullRequestFiles db prId (Some []) s = (NoFiles, s) \<and>
   storePullRequestFiles db prId None s = (NoFiles, s)"
proof (intro conjI impI)
  assume h: "fs \<noteq> [] \<and> deleteAccepted db \<and> list_all (createAccepted db) fs \<and>
    pullRequests s prId \<noteq> None"
  then obtain pr where pr: "pullRequests s prId = Some pr" by auto
  have r: "storePullRequestFiles db prId (Some fs) s =
             (FilesStored,
              s\<lparr>pullRequestFiles :=
                   filter (\<lambda>f. f_pullRequestId f \<noteq> prId) (pullRequestFiles s) @
                   map (fileRow prId) fs\<rparr>)"
    using h pr by (simp add: storePullRequestFiles_def filter_accepted_all)
  show "fst (storePullRequestFiles db prId (Some fs) s) = FilesStored"
    by (simp add: r)
  show "filter (\<lambda>f. f_pullRequestId f = prId)
        (pullRequestFiles (snd (storePullRequestFiles db prId (Some fs) s))) =
      map (fileRow prId) fs"
    by (simp add: r filter_own_rows)
  show "storePullRequestFiles db prId (Some fs) (snd (storePullRequestFiles db prId (Some fs) s)) =
      storePullRequestFiles db prId (Some fs) s"
    using h pr
    by (simp add: r) (simp add: storePullRequestFiles_def filter_accepted_all filter_other_rows)
next
  assume "fs \<noteq> [] \<and> \<not> deleteAccepted db"
  then show "storePullRequestFiles db prId (Some fs) s = (FilesSwallowed PersistenceFailure, s)"
    by (simp add: storePullRequestFiles_def)
next
  assume "fs \<noteq> [] \<and> deleteAccepted db"
  then show "filter (\<lambda>f. f_pullRequestId f = prId)
        (pullRequestFiles (snd (storePullRequestFiles db prId (Some fs) s))) =
      (if pullRequests s prId = None then []
       else map (fileRow prId) (filter (createAccepted db) fs))"
    by (auto simp: storePullRequestFiles_def Let_def filter_own_rows split: option.splits)
next
  show "filter (\<lambda>f. f_pullRequestId f \<noteq> prId)
     (pullRequestFiles (snd (storePullRequestFiles db prId files s))) =
   filter (\<lambda>f. f_pullRequestId f \<noteq> prId) (pullRequestFiles s)"
    by (auto simp: storePullRequestFiles_def Let_def filter_other_rows split: option.splits)
next
  show "snd (storePullRequestFiles db prId files s)\<lparr>pullRequestFiles := pullRequestFiles s\<rparr> = s"
    by (auto simp: storePullRequestFiles_def Let_def split: option.splits)
next
  show "storePullRequestFiles db prId (Some []) s = (NoFiles, s)"
    "storePullRequestFiles db prId None s = (NoFiles, s)"
    by (simp_all add: storePullRequestFiles_def)
qed

lemmas files_defs = storePullRequestFiles_def staleFilesStore_def fileRow_def demoFile_def
  acceptingDb_def rejectingDb_def demoStore_def

theorem storePullRequestFiles_replaces_witness:
  "storePullRequestFiles acceptingDb ''pr1'' (Some [demoFile, demoFile]) staleFilesStore =
     (FilesStored,
      staleFilesStore\<lparr>pullRequestFiles := [fileRow ''pr1'' demoFile, fileRow ''pr1'' demoFile]\<rparr>) \<and>
   storePullRequestFiles acceptingDb ''pr1'' (Some [demoFile, demoFile])
     (snd (storePullRequestFiles acceptingDb ''pr1'' (Some [demoFile, demoFile]) staleFilesStore)) =
   storePullRequestFiles acceptingDb ''pr1'' (Some [demoFile, demoFile]) staleFilesStore \<and>
   storePullRequestFiles (acceptingDb\<lparr>deleteAccepted := False\<rparr>) ''pr1'' (Some [demoFile])
     staleFilesStore = (FilesSwallowed PersistenceFailure, staleFilesStore) \<and>
   pullRequestFiles (snd (storePullRequestFiles rejectingDb ''pr1'' (Some [demoFile])
     staleFilesStore)) = [] \<and>
   pullRequestFiles (snd (storePullRequestFiles acceptingDb ''pr404'' (Some [demoFile])
     staleFilesStore)) = [fileRow ''pr1'' demoFile]"
proof -
  have a: "[demoFile, demoFile] \<noteq> [] \<and> deleteAccepted acceptingDb \<and>
           list_all (createAccepted acceptingDb) [demoFile, demoFile] \<and>
           pullRequests staleFilesStore ''pr1'' \<noteq> None"
    by (simp add: acceptingDb_def staleFilesStore_def demoStore_def)
  have b: "[demoFile] \<noteq> [] \<and> \<not> deleteAccepted (acceptingDb\<lparr>deleteAccepted := False\<rparr>)"
    by simp
  have c: "[demoFile] \<noteq> [] \<and> deleteAccepted rejectingDb"
    by (simp add: rejectingDb_def)
  have d: "[demoFile] \<noteq> [] \<and> deleteAccepted acceptingDb"
    by (simp add: acceptingDb_def)
  have rows: "pullRequestFiles staleFilesStore = [fileRow ''pr1'' demoFile]"
    by (simp add: staleFilesStore_def)
  have t1: "pullRequestFiles (snd (storePullRequestFiles acceptingDb ''pr1''
              (Some [demoFile, demoFile]) staleFilesStore)) =
            [fileRow ''pr1'' demoFile, fileRow ''pr1'' demoFile]"
    by (simp add: files_defs)
  show ?thesis
    using storePullRequestFiles_replaces
            [of "[demoFile, demoFile]" acceptingDb staleFilesStore "''pr1''"
                "Some [demoFile, demoFile]"]
      storePullRequestFiles_replaces
            [of "[demoFile]" "acceptingDb\<lparr>deleteAccepted := False\<rparr>" staleFilesStore "''pr1''"
                "Some [demoFile]"]
      storePullRequestFiles_replaces
            [of "[demoFile]" rejectingDb staleFilesStore "''pr1''" "Some [demoFile]"]
      storePullRequestFiles_replaces
            [of "[demoFile]" acceptingDb staleFilesStore "''pr404''" "Some [demoFile]"]
      a b c d rows t1
    by (simp add: files_defs prod_eq_iff)
qed

text \<open>
  An empty file list for a pull request that has a stored row: the row stays, so the
  stored rows are not the given list. And a non-empty list whose inserts are rejected:
  the call returns, and the stored rows are not the given list either.
\<close>

theorem storePullRequestFiles_empty_list_counterexample:
  "filter (\<lambda>f. f_pullRequestId f = ''pr1'')
     (pullRequestFiles (snd (storePullRequestFiles acceptingDb ''pr1'' (Some []) staleFilesStore))) =
   [fileRow ''pr1'' demoFile] \<and>
   [fileRow ''pr1'' demoFile] \<noteq> map (fileRow ''pr1'') [] \<and>
   filter (\<lambda>f. f_pullRequestId f = ''pr1'')
     (pullRequestFiles (snd (storePullRequestFiles rejectingDb ''pr1'' (Some [demoFile])
        staleFilesStore))) = [] \<and>
   [] \<noteq> map (fileRow ''pr1'') [demoFile]"
  by (simp add: files_defs)

subsection \<open>Account id resolution\<close>

lemma toString_digit: "n < 10 \<Longrightarrow> toString n = [digitChar n]"
  by (simp add: toString.simps)

text \<open>
  C6. On a payload that carries all four ids, the pull request, review and comment
  handlers resolve \<^verbatim>\<open>installation.account.id\<close>; the push handler resolves
  \<^verbatim>\<open>organization.id\<close>.
\<close>

theorem handlePushEvent_skips_installation_account:
  "handlePullRequestEvent_accountId (Some fullPayload) = Inr (Some ''1'') \<and>
   handleReviewEvent_accountId (Some fullPayload) = Inr (Some ''1'') \<and>
   handleIssueCommentEvent_accountId (Some fullPayload) = Inr (Some ''1'') \<and>
   handlePushEvent_accountId (Some fullPayload) = Inr (Some ''2'')"
  by (simp add: handlePullRequestEvent_accountId_def handleReviewEvent_accountId_def
      handleIssueCommentEvent_accountId_def handlePushEvent_accountId_def
      installationAccountId_def fullPayload_def toString_digit digitChar_def)

subsection \<open>Pull request upsert: stored state and description encryption\<close>

lemma updatePullRequestStatus_outcome:
  "fst (updatePullRequestStatus encryptContent isEncrypted prId state mergedAt closedAt s) =
     (if pullRequests s prId \<noteq> None \<and> closedAt = InvalidDate then Inl ValidationError
      else Inr ())"
  by (simp add: updatePullRequestStatus_def Let_def split: option.splits jsDate.splits)

lemma updatePullRequestStatus_description:
  assumes "pullRequests s prId = Some pr" and "pr_description pr = Some d"
    and "d \<noteq> []" and "\<not> isEncrypted d"
  shows "\<exists>pr'. pullRequests (snd (updatePullRequestStatus encryptContent isEncrypted prId state
                        mergedAt (ValidDate stamp) s)) prId = Some pr' \<and>
           pr_description pr' = (case encryptContent d of Inl e \<Rightarrow> Some d | Inr c \<Rightarrow> Some c)"
  using assms by (simp add: updatePullRequestStatus_def split: sum.splits)


lemma storePullRequest_encrypts:
  assumes "pd_body prData = Some d" and "d \<noteq> []" and "\<not> isEncrypted d"
    and "mapPRState (pd_state prData) (pd_merged prData) \<noteq> OPEN"
    and "encryptContent d = Inr c" and "pd_user prData = Some a"
  shows "\<exists>row. storePullRequest encryptContent isEncrypted prData accountId repoId s =
           (Inr row, s\<lparr>pullRequests := (pullRequests s)(toString (pd_id prData) \<mapsto> row)\<rparr>) \<and>
           pr_description row = Some c \<and>
           pr_state row = mapPRState (pd_state prData) (pd_merged prData)"
proof -
  have st: "mapPRState (pd_state prData) (pd_merged prData) = CLOSED \<or>
            mapPRState (pd_state prData) (pd_merged prData) = MERGED"
    using assms(4) by (cases "mapPRState (pd_state prData) (pd_merged prData)") auto
  show ?thesis
    using assms st
    by (auto simp: storePullRequest_def Let_def split: option.splits)
qed


lemmas store_defs = storePullRequest_def mapPRState_def markingEncrypt_def neverEncrypted_def
  mergedOpenPrData_def closedPrData_def toString.simps digitChar_def Let_def


text \<open>
  C3. With an encryption capability that throws, \<open>storePullRequest\<close> on a closed pull
  request with a plain-text body lets the exception out and stores nothing, whereas
  \<open>updatePullRequestStatus\<close> keeps the plain text and returns normally.
\<close>

theorem storePullRequest_encrypt_failure_propagates:
  "storePullRequest failingEncrypt neverEncrypted closedPrData ''a1'' ''r1'' demoStore =
     (Inl EncryptionFailure, demoStore) \<and>
   updatePullRequestStatus failingEncrypt neverEncrypted ''pr1'' CLOSED None
       (ValidDate 1704240000000) demoStore =
     (Inr (),
      demoStore\<lparr>pullRequests := [''pr1'' \<mapsto>
        demoPR\<lparr>pr_state := CLOSED, pr_description := Some ''plain text'',
               pr_mergedAt := None, pr_closedAt := Some 1704240000000\<rparr>]\<rparr>)"
  by (simp add: storePullRequest_def updatePullRequestStatus_def closedPrData_def
      failingEncrypt_def neverEncrypted_def mapPRState_def demoStore_def demoPR_def)

subsection \<open>Commit linker\<close>

lemma earliest_None: "earliest cs = None \<longleftrightarrow> cs = []"
  by (induction cs) (auto split: option.splits)

lemma earliest_Min:
  "earliest cs = Some c \<Longrightarrow> c \<in> set cs \<and> c_committedAt c = Min (c_committedAt ` set cs)"
proof (induction cs arbitrary: c)
  case Nil
  then show ?case by simp
next
  case (Cons x xs)
  show ?case
  proof (cases "earliest xs")
    case None
    then have "xs = []" by (simp add: earliest_None)
    with Cons.prems show ?thesis by simp
  next
    case (Some d)
    then have d: "d \<in> set xs" "c_committedAt d = Min (c_committedAt ` set xs)"
      using Cons.IH by auto
    then have ne: "c_committedAt ` set xs \<noteq> {}" by auto
    have "Min (c_committedAt ` set (x # xs)) = min (c_committedAt x) (Min (c_committedAt ` set xs))"
      using ne by (simp add: Min_insert)
    with Cons.prems Some d show ?thesis
      by (auto split: if_splits simp: min_def)
  qed
qed

lemma resolveAuthor_pullRequests:
  "pullRequests (snd (resolveAuthor now pr a s)) = pullRequests s"
  by (auto simp: resolveAuthor_def createUser_def Let_def split: option.splits sum.splits)

lemma linkCommit_pullRequests:
  "pullRequests (snd (linkCommit now prId commitData s)) = pullRequests s"
proof -
  have r: "pullRequests s1 = pullRequests s"
    if "resolveAuthor now pr a s = (x, s1)" for pr a x s1
    using resolveAuthor_pullRequests [of now pr a s] that by simp
  show ?thesis
    unfolding linkCommit_def
    by (auto split: option.splits prod.splits sum.splits dest: r)
qed

lemma linkLoop_pullRequests:
  "pullRequests (snd (linkLoop clock i prId prCommits s)) = pullRequests s"
proof (induction prCommits arbitrary: i s)
  case Nil
  then show ?case by simp
next
  case (Cons commitData rest)
  obtain e s1 where step: "linkCommit (clock i) prId commitData s = (e, s1)"
    by (cases "linkCommit (clock i) prId commitData s")
  have s1: "pullRequests s1 = pullRequests s"
    using linkCommit_pullRequests [of "clock i" prId commitData s] step by simp
  show ?case
  proof (cases e)
    case None
    then show ?thesis using step s1 Cons.IH [of "Suc i" s1] by simp
  next
    case (Some err)
    then show ?thesis using step s1 by simp
  qed
qed

lemma linkCommitsToPullRequest_completed:
  assumes "linkCommitsToPullRequest clock prId fetched s = (Completed, s')"
    and "linkedCommits s' prId \<noteq> []"
  shows "\<exists>pr. pullRequests s' prId = Some pr \<and>
              pr_firstCommitAt pr =
                Some (Min (c_committedAt ` set (linkedCommits s' prId)))"
proof -
  from assms(1) obtain prCommits s1 where
    loop: "linkLoop clock 0 prId prCommits s = (None, s1)" and
    fin: "(case earliest (linkedCommits s1 prId) of
             None \<Rightarrow> (Completed, s1)
           | Some earliestCommit \<Rightarrow>
               (case pullRequests s1 prId of
                  None \<Rightarrow> (Swallowed RecordNotFound, s1)
                | Some pr \<Rightarrow>
                    (Completed,
                     s1\<lparr>pullRequests := (pullRequests s1)(prId \<mapsto>
                          pr\<lparr>pr_firstCommitAt := Some (c_committedAt earliestCommit)\<rparr>)\<rparr>))) =
           (Completed, s')"
    by (auto simp: linkCommitsToPullRequest_def split: sum.splits option.splits if_splits prod.splits)
  show ?thesis
  proof (cases "earliest (linkedCommits s1 prId)")
    case None
    then have "s' = s1" "linkedCommits s1 prId = []" using fin by (simp_all add: earliest_None)
    with assms(2) show ?thesis by simp
  next
    case (Some c)
    then obtain pr where pr: "pullRequests s1 prId = Some pr"
      and s': "s' = s1\<lparr>pullRequests := (pullRequests s1)(prId \<mapsto>
                          pr\<lparr>pr_firstCommitAt := Some (c_committedAt c)\<rparr>)\<rparr>"
      using fin by (auto split: option.splits)
    have same: "linkedCommits s' prId = linkedCommits s1 prId"
      by (simp add: s' linkedCommits_def)
    have "c_committedAt c = Min (c_committedAt ` set (linkedCommits s1 prId))"
      using earliest_Min [OF Some] by simp
    then have m: "c_committedAt c = Min (c_committedAt ` set (linkedCommits s' prId))"
      by (simp only: same)
    have "pullRequests s' prId = Some (pr\<lparr>pr_firstCommitAt := Some (c_committedAt c)\<rparr>)"
      by (simp add: s')
    with m show ?thesis by simp
  qed
qed

lemma linkCommitsToPullRequest_not_completed:
  assumes "fst (linkCommitsToPullRequest clock prId fetched s) \<noteq> Completed"
  shows "pullRequests (snd (linkCommitsToPullRequest clock prId fetched s)) = pullRequests s"
proof -
  have l: "pullRequests s1 = pullRequests s"
    if "linkLoop clock 0 prId prCommits s = (x, s1)" for prCommits x s1
    using linkLoop_pullRequests [of clock 0 prId prCommits s] that by simp
  show ?thesis
    using assms unfolding linkCommitsToPullRequest_def
    by (auto split: sum.splits option.splits prod.splits if_splits dest: l)
qed

text \<open>
  C8 (amended). When \<open>linkCommitsToPullRequest\<close> runs to the end of its \<^verbatim>\<open>try\<close> block
  (the upstream list is not empty and nothing throws) and the pull request then has at
  least one linked commit, the pull request's \<open>firstCommitAt\<close> is the minimum
  \<open>committedAt\<close> over the commits linked to it. In every other case (the fetch fails,
  it yields null or an empty list, or an exception is swallowed on the way) no pull
  request row is written, so \<open>firstCommitAt\<close> is what it was; a failed or empty fetch
  leaves the whole store unchanged.
\<close>

theorem linkCommitsToPullRequest_firstCommitAt:
  "(linkCommitsToPullRequest clock prId fetched s = (Completed, s') \<and>
    linkedCommits s' prId \<noteq> [] \<longrightarrow>
      (\<exists>pr. pullRequests s' prId = Some pr \<and>
            pr_firstCommitAt pr =
              Some (Min (c_committedAt ` set (linkedCommits s' prId))))) \<and>
   (fst (linkCommitsToPullRequest clock prId fetched s) \<noteq> Completed \<longrightarrow>
      pullRequests (snd (linkCommitsToPullRequest clock prId fetched s)) = pullRequests s) \<and>
   linkCommitsToPullRequest clock prId (Inl e) s = (Swallowed e, s) \<and>
   linkCommitsToPullRequest clock prId (Inr None) s = (NoCommits, s) \<and>
   linkCommitsToPullRequest clock prId (Inr (Some [])) s = (NoCommits, s)"
proof (intro conjI impI)
  assume "linkCommitsToPullRequest clock prId fetched s = (Completed, s') \<and>
    linkedCommits s' prId \<noteq> []"
  then show "\<exists>pr. pullRequests s' prId = Some pr \<and>
            pr_firstCommitAt pr =
              Some (Min (c_committedAt ` set (linkedCommits s' prId)))"
    using linkCommitsToPullRequest_completed by blast
next
  assume "fst (linkCommitsToPullRequest clock prId fetched s) \<noteq> Completed"
  then show "pullRequests (snd (linkCommitsToPullRequest clock prId fetched s)) = pullRequests s"
    by (rule linkCommitsToPullRequest_not_completed)
qed (simp_all add: linkCommitsToPullRequest_def)

lemmas link_defs = linkCommitsToPullRequest_def linkCommit_def resolveAuthor_def
  createUser_def matchesAuthor_def orElse_def linkedCommits_def toString.simps digitChar_def
  defaultPoints_def defaultLevel_def

lemmas link_demo_defs = linkStore_def localCommit_def githubAlice_def gitAuthorAt_def
  upstreamCommits_def brokenCommits_def demoClock_def demoStore_def demoPR_def alice_def
  demoRepo_def demoAccount_def

text \<open>
  Three upstream commits, one stored and two not: all three end up linked and
  \<open>firstCommitAt\<close> is the earliest of 300, 100 and 200.
\<close>

theorem linkCommitsToPullRequest_firstCommitAt_witness:
  "fst (linkCommitsToPullRequest demoClock ''pr1'' (Inr (Some upstreamCommits)) linkStore) =
     Completed \<and>
   map c_id (linkedCommits
     (snd (linkCommitsToPullRequest demoClock ''pr1'' (Inr (Some upstreamCommits)) linkStore))
     ''pr1'') = [''aaa'', ''bbb'', ''ccc''] \<and>
   map_option pr_firstCommitAt
     (pullRequests
        (snd (linkCommitsToPullRequest demoClock ''pr1'' (Inr (Some upstreamCommits)) linkStore))
        ''pr1'') = Some (Some 100) \<and>
   fst (linkCommitsToPullRequest demoClock ''pr1'' (Inr (Some brokenCommits)) linkStore) =
     Swallowed TypeError \<and>
   pullRequests
     (snd (linkCommitsToPullRequest demoClock ''pr1'' (Inr (Some brokenCommits)) linkStore)) =
   pullRequests linkStore \<and>
   linkCommitsToPullRequest demoClock ''pr1'' (Inl GitHubFailure) linkStore =
     (Swallowed GitHubFailure, linkStore)"
proof -
  let ?r = "linkCommitsToPullRequest demoClock ''pr1'' (Inr (Some upstreamCommits)) linkStore"
  let ?b = "linkCommitsToPullRequest demoClock ''pr1'' (Inr (Some brokenCommits)) linkStore"
  have a: "fst ?r = Completed"
    by (simp add: link_defs link_demo_defs)
  have b: "map c_id (linkedCommits (snd ?r) ''pr1'') = [''aaa'', ''bbb'', ''ccc'']"
    by (simp add: link_defs link_demo_defs)
  have c: "c_committedAt ` set (linkedCommits (snd ?r) ''pr1'') = {300, 100, 200}"
    by (simp add: link_defs link_demo_defs)
  have run: "?r = (Completed, snd ?r)"
    using a by (simp add: prod_eq_iff)
  have ne: "linkedCommits (snd ?r) ''pr1'' \<noteq> []"
    using b by auto
  have "\<exists>pr. pullRequests (snd ?r) ''pr1'' = Some pr \<and>
              pr_firstCommitAt pr = Some (Min {300, 100, 200})"
    using linkCommitsToPullRequest_firstCommitAt
            [of demoClock "''pr1''" "Inr (Some upstreamCommits)" linkStore "snd ?r"] run ne
    by (simp only: c) blast
  then have first: "map_option pr_firstCommitAt (pullRequests (snd ?r) ''pr1'') = Some (Some 100)"
    by auto
  have d: "fst ?b = Swallowed TypeError"
    by (simp add: link_defs link_demo_defs)
  then have nc: "fst ?b \<noteq> Completed" by simp
  have prs: "pullRequests (snd ?b) = pullRequests linkStore"
    using linkCommitsToPullRequest_firstCommitAt
            [of demoClock "''pr1''" "Inr (Some brokenCommits)" linkStore] nc
    by blast
  have f: "linkCommitsToPullRequest demoClock ''pr1'' (Inl GitHubFailure) linkStore =
     (Swallowed GitHubFailure, linkStore)"
    using linkCommitsToPullRequest_firstCommitAt
            [of demoClock "''pr1''" _ linkStore _ GitHubFailure]
    by blast
  from a b first d prs f show ?thesis by simp
qed

text \<open>
  The second upstream commit has no \<^verbatim>\<open>commit.author\<close>: the first commit is already
  linked when the TypeError is caught, and \<open>firstCommitAt\<close> is never written. A later
  call that fetches an empty list returns at once and leaves it unset.
\<close>

theorem linkCommitsToPullRequest_swallowed_error_counterexample:
  "fst (linkCommitsToPullRequest demoClock ''pr1'' (Inr (Some brokenCommits)) linkStore) =
     Swallowed TypeError \<and>
   map c_committedAt (linkedCommits
     (snd (linkCommitsToPullRequest demoClock ''pr1'' (Inr (Some brokenCommits)) linkStore))
     ''pr1'') = [100] \<and>
   map_option pr_firstCommitAt
     (pullRequests
        (snd (linkCommitsToPullRequest demoClock ''pr1'' (Inr (Some brokenCommits)) linkStore))
        ''pr1'') = Some None \<and>
   linkCommitsToPullRequest demoClock ''pr1'' (Inr (Some []))
     (snd (linkCommitsToPullRequest demoClock ''pr1'' (Inr (Some brokenCommits)) linkStore)) =
   (NoCommits,
    snd (linkCommitsToPullRequest demoClock ''pr1'' (Inr (Some brokenCommits)) linkStore))"
  by (simp add: link_defs link_demo_defs)

end
